theory Spec2Isabelle
  imports Complex_Main "HOL-Library.Multiset"
begin

section \<open>The result import tool (tools/test_script.py)\<close>

subsection \<open>Status constants and data classes\<close>

text \<open>
  The class \<open>Status\<close> holds four string constants; a status field is a Python \<open>str\<close>,
  so it is a \<open>string\<close> here and the constants are named strings. One \<open>char\<close> stands
  for one character of a Python string.
\<close>

definition PASS :: string where
  "PASS = ''PASS''"

definition FAIL :: string where
  "FAIL = ''FAIL''"

definition TODO :: string where
  "TODO = ''TODO''"

definition CONDITIONALPASS :: string where
  "CONDITIONALPASS = ''CONDITIONALPASS''"

text \<open>
  The exceptions the modelled code can raise. A function that can raise returns
  \<open>error + 'a\<close>, with \<open>Inl\<close> for the exception.
\<close>

datatype error =
    FileNotFoundError
  | ParseError
  | ValueError
  | IndexError
  | UnicodeDecodeError
  | RecursionError
  | JSONDecodeError
  | OSError
  | PermissionError
  | UnboundLocalError
  | AssertionError
  | ClientError string

definition bind_result :: "error + 'a \<Rightarrow> ('a \<Rightarrow> error + 'b) \<Rightarrow> error + 'b" where
  "bind_result r f = (case r of Inl e \<Rightarrow> Inl e | Inr x \<Rightarrow> f x)"

text \<open>
  \<open>TestResult\<close> and \<open>AggregatedResult\<close> are dataclasses. The type \<open>'f\<close> is Python's
  \<open>float\<close>: the code only adds durations, starts a sum at \<open>0.0\<close>, parses and formats
  them, so the model is parametric in it and assumes no law of floating-point addition.
\<close>

record 'f TestResult =
  name :: string
  full_name :: string
  status :: string
  comment :: string
  duration :: 'f

record 'f AggregatedResult =
  test_key :: string
  status :: string
  variations :: "'f TestResult list"
  total_duration :: 'f

text \<open>\<open>AggregatedResult(test_key=k)\<close>: the dataclass defaults.\<close>

definition new_AggregatedResult :: "string \<Rightarrow> ('f::zero) AggregatedResult" where
  "new_AggregatedResult k =
     \<lparr>test_key = k, status = PASS, variations = [], total_duration = 0\<rparr>"

subsection \<open>AggregatedResult.add_variation\<close>

definition add_variation ::
  "('f::plus) AggregatedResult \<Rightarrow> 'f TestResult \<Rightarrow> 'f AggregatedResult" where
  "add_variation self result =
     (let self1 = self\<lparr>variations := variations self @ [result]\<rparr>;
          self2 = self1\<lparr>total_duration := total_duration self1 + duration result\<rparr>
      in if TestResult.status result = FAIL then self2\<lparr>status := FAIL\<rparr>
         else if TestResult.status result = TODO \<and> status self2 \<noteq> FAIL
           then self2\<lparr>status := TODO\<rparr>
         else if TestResult.status result = CONDITIONALPASS \<and> status self2 = PASS
           then self2\<lparr>status := CONDITIONALPASS\<rparr>
         else self2)"

text \<open>
  The priority rule as the specification writes it, to be compared with the branches of
  \<open>add_variation\<close>.
\<close>

definition priority_rule_spec :: "string \<Rightarrow> string \<Rightarrow> string" where
  "priority_rule_spec st new =
     (if st = FAIL \<or> new = FAIL then FAIL
      else if st = TODO \<or> new = TODO then TODO
      else if st = CONDITIONALPASS \<or> new = CONDITIONALPASS then CONDITIONALPASS
      else PASS)"

text \<open>The statuses a group can hold: the initial one and the three that are assigned.\<close>

definition known_status :: "string \<Rightarrow> bool" where
  "known_status s = (s = PASS \<or> s = FAIL \<or> s = TODO \<or> s = CONDITIONALPASS)"

text \<open>The final status as a function of the set of statuses seen.\<close>

definition worst_status :: "string set \<Rightarrow> string" where
  "worst_status S =
     (if FAIL \<in> S then FAIL
      else if TODO \<in> S then TODO
      else if CONDITIONALPASS \<in> S then CONDITIONALPASS
      else PASS)"

subsection \<open>Clean names\<close>

text \<open>
  \<open>str.split(sep)\<close> for a separator of one character: the fields between the
  separators, never an empty list.
\<close>

fun str_split :: "char \<Rightarrow> string \<Rightarrow> string list" where
  "str_split sep [] = [[]]"
| "str_split sep (c # cs) =
     (if c = sep then [] # str_split sep cs
      else (case str_split sep cs of
              [] \<Rightarrow> [[c]]
            | w # ws \<Rightarrow> (c # w) # ws))"

text \<open>\<open>xs[0]\<close>, which raises \<open>IndexError\<close> on an empty list.\<close>

definition item0 :: "'a list \<Rightarrow> error + 'a" where
  "item0 xs = (case xs of [] \<Rightarrow> Inl IndexError | x # _ \<Rightarrow> Inr x)"

text \<open>\<open>full_name.split(" ")[0].split("[")[0]\<close>\<close>

definition clean_name_of :: "string \<Rightarrow> error + string" where
  "clean_name_of fn =
     bind_result (item0 (str_split CHR '' '' fn))
       (\<lambda>a. item0 (str_split CHR ''['' a))"

text \<open>The specification's wording: a string truncated at the first occurrence of a character.\<close>

definition truncate_at :: "char \<Rightarrow> string \<Rightarrow> string" where
  "truncate_at c s = takeWhile (\<lambda>x. x \<noteq> c) s"

subsection \<open>XML elements\<close>

text \<open>
  An \<open>xml.etree.ElementTree.Element\<close>: its tag, its attribute dictionary, its text
  (\<open>etext\<close>, \<open>None\<close> when the element has none) and its child elements in document
  order.
\<close>

datatype element =
  Element (tag: string) (attrib: "string \<rightharpoonup> string") (etext: "string option")
    (children: "element list")

text \<open>\<open>element.get(key, default)\<close>\<close>

definition get :: "element \<Rightarrow> string \<Rightarrow> string \<Rightarrow> string" where
  "get e k d = (case attrib e k of None \<Rightarrow> d | Some v \<Rightarrow> v)"

text \<open>\<open>element.find(t)\<close>: the first child with tag \<open>t\<close>, or \<open>None\<close>.\<close>

definition find_child :: "element \<Rightarrow> string \<Rightarrow> element option" where
  "find_child e t = find (\<lambda>c. tag c = t) (children e)"

text \<open>
  \<open>element.iter()\<close>: the element and everything below it, in document order.
  \<open>root.findall(".//t")\<close> selects from \<open>root.iter(t)\<close> every element other than
  \<open>root\<close> itself, that is the elements with tag \<open>t\<close> strictly below the root.
\<close>

fun iter :: "element \<Rightarrow> element list" where
  "iter (Element t a x cs) = Element t a x cs # concat (map iter cs)"

definition findall_descendants :: "element \<Rightarrow> string \<Rightarrow> element list" where
  "findall_descendants r t = filter (\<lambda>e. tag e = t) (concat (map iter (children r)))"

subsection \<open>String helpers\<close>

text \<open>\<open>sub in s\<close> for strings.\<close>

primrec str_contains :: "string \<Rightarrow> string \<Rightarrow> bool" where
  "str_contains sub [] = (sub = [])"
| "str_contains sub (c # cs) = (take (length sub) (c # cs) = sub \<or> str_contains sub cs)"

text \<open>
  \<open>str.lower()\<close> on characters below code point 256: the letters A to Z and the
  capital letters of Latin-1 move up by 32, everything else stays.
\<close>

definition lower_chr :: "char \<Rightarrow> char" where
  "lower_chr c =
     (let n = (of_char c :: nat)
      in if (65 \<le> n \<and> n \<le> 90) \<or> (192 \<le> n \<and> n \<le> 222 \<and> n \<noteq> 215)
         then char_of (n + 32) else c)"

definition lower :: "string \<Rightarrow> string" where
  "lower s = map lower_chr s"

subsection \<open>JUnitParser\<close>

record 'f ParsedResults =
  total :: int
  passed :: int
  failed :: int
  skipped :: int
  tests :: "'f TestResult list"

text \<open>\<open>ParsedResults()\<close>: the dataclass defaults.\<close>

definition new_ParsedResults :: "'f ParsedResults" where
  "new_ParsedResults = \<lparr>total = 0, passed = 0, failed = 0, skipped = 0, tests = []\<rparr>"

text \<open>\<open>JUnitParser._extract_message\<close>; the separator is two newline characters.\<close>

definition extract_message :: "element \<Rightarrow> string" where
  "extract_message e =
     (let msg = get e ''message'' ''''
      in case etext e of
           None \<Rightarrow> msg
         | Some t \<Rightarrow> if t = [] then msg else msg @ [CHR 0x0A, CHR 0x0A] @ take 2000 t)"

text \<open>
  \<open>float(s)\<close> is taken as a parameter \<open>float_of\<close>: \<open>None\<close> where Python raises
  \<open>ValueError\<close>.
\<close>

definition py_float :: "(string \<Rightarrow> 'f option) \<Rightarrow> string \<Rightarrow> error + 'f" where
  "py_float float_of s = (case float_of s of None \<Rightarrow> Inl ValueError | Some d \<Rightarrow> Inr d)"

text \<open>\<open>JUnitParser._parse_testcase\<close>\<close>

definition parse_testcase ::
  "(string \<Rightarrow> 'f option) \<Rightarrow> element \<Rightarrow> error + 'f TestResult" where
  "parse_testcase float_of testcase =
     (let fn = get testcase ''name'' ''''
      in bind_result (py_float float_of (get testcase ''time'' ''0'')) (\<lambda>dur.
         bind_result (clean_name_of fn) (\<lambda>clean_name.
           let failure = find_child testcase ''failure'';
               err = find_child testcase ''error'';
               skp = find_child testcase ''skipped''
           in case failure of
                Some f \<Rightarrow>
                  Inr \<lparr>name = clean_name, full_name = fn, status = FAIL,
                       comment = extract_message f, duration = dur\<rparr>
              | None \<Rightarrow>
                 (case err of
                    Some e \<Rightarrow>
                      Inr \<lparr>name = clean_name, full_name = fn, status = FAIL,
                           comment = extract_message e, duration = dur\<rparr>
                  | None \<Rightarrow>
                     (case skp of
                        Some s \<Rightarrow>
                          (let skip_type = lower (get s ''type'' '''');
                               skip_msg = get s ''message'' ''''
                           in if str_contains ''xfail'' skip_type
                                 \<and> \<not> str_contains ''skip'' skip_type
                              then Inr \<lparr>name = clean_name, full_name = fn,
                                        status = CONDITIONALPASS,
                                        comment = ''XFAIL: '' @ skip_msg, duration = dur\<rparr>
                              else Inr \<lparr>name = clean_name, full_name = fn, status = TODO,
                                        comment = (if skip_msg = [] then ''Skipped''
                                                   else skip_msg),
                                        duration = dur\<rparr>)
                      | None \<Rightarrow>
                          Inr \<lparr>name = clean_name, full_name = fn, status = PASS,
                               comment = '''', duration = dur\<rparr>)))))"

text \<open>The body of the loop of \<open>JUnitParser.parse\<close> once the testcase is parsed.\<close>

definition count_result :: "'f ParsedResults \<Rightarrow> 'f TestResult \<Rightarrow> 'f ParsedResults" where
  "count_result results result =
     (let r1 = results\<lparr>tests := tests results @ [result]\<rparr>;
          r2 = r1\<lparr>total := total r1 + 1\<rparr>
      in if TestResult.status result = PASS \<or> TestResult.status result = CONDITIONALPASS
           then r2\<lparr>passed := passed r2 + 1\<rparr>
         else if TestResult.status result = FAIL then r2\<lparr>failed := failed r2 + 1\<rparr>
         else r2\<lparr>skipped := skipped r2 + 1\<rparr>)"

fun parse_loop ::
  "(string \<Rightarrow> 'f option) \<Rightarrow> 'f ParsedResults \<Rightarrow> element list \<Rightarrow> error + 'f ParsedResults" where
  "parse_loop float_of results [] = Inr results"
| "parse_loop float_of results (testcase # rest) =
     bind_result (parse_testcase float_of testcase)
       (\<lambda>result. parse_loop float_of (count_result results result) rest)"

text \<open>
  \<open>JUnitParser.parse\<close>. The file system is a map from paths to file contents, and
  \<open>ET.parse\<close> is the parameter \<open>xml_parse\<close>: \<open>None\<close> where it raises \<open>ParseError\<close>.
\<close>

definition parse ::
  "(string \<rightharpoonup> string) \<Rightarrow> (string \<Rightarrow> element option) \<Rightarrow> (string \<Rightarrow> 'f option) \<Rightarrow> string
     \<Rightarrow> error + 'f ParsedResults" where
  "parse fs xml_parse float_of junit_file =
     (case fs junit_file of
        None \<Rightarrow> Inl FileNotFoundError
      | Some content \<Rightarrow>
         (case xml_parse content of
            None \<Rightarrow> Inl ParseError
          | Some r \<Rightarrow>
              parse_loop float_of new_ParsedResults (findall_descendants r ''testcase'')))"


section \<open>Comments and aggregation (tools/test_script.py)\<close>

subsection \<open>AggregatedResult.build_comment\<close>

text \<open>\<open>sep.join(lines)\<close>\<close>

fun str_join :: "string \<Rightarrow> string list \<Rightarrow> string" where
  "str_join sep [] = []"
| "str_join sep [x] = x"
| "str_join sep (x # y # ys) = x @ sep @ str_join sep (y # ys)"

text \<open>The decimal digits of a natural number, as an f-string prints \<open>len(...)\<close>.\<close>

fun str_of_nat :: "nat \<Rightarrow> string" where
  "str_of_nat n =
     (if n < 10 then [char_of (48 + n)]
      else str_of_nat (n div 10) @ [char_of (48 + n mod 10)])"

declare str_of_nat.simps [simp del]

text \<open>\<open>status_icons.get(var.status, "?")\<close>\<close>

definition status_icon :: "string \<Rightarrow> string" where
  "status_icon s =
     (if s = PASS then ''[PASS]''
      else if s = FAIL then ''[FAIL]''
      else if s = TODO then ''[SKIP]''
      else if s = CONDITIONALPASS then ''[XFAIL]''
      else ''?'')"

text \<open>
  \<open>build_comment\<close> appends to the list \<open>lines\<close> in two loops. The format
  \<open>{var.duration:.2f}\<close> is the parameter \<open>fmt2f\<close>.
\<close>

definition append_variation_line ::
  "('f \<Rightarrow> string) \<Rightarrow> string list \<Rightarrow> 'f TestResult \<Rightarrow> string list" where
  "append_variation_line fmt2f lines var =
     lines @ [status_icon (TestResult.status var) @ '' '' @ full_name var @ '' - ''
              @ TestResult.status var @ '' ('' @ fmt2f (duration var) @ ''s)'']"

definition append_failure_detail :: "string list \<Rightarrow> 'f TestResult \<Rightarrow> string list" where
  "append_failure_detail lines var =
     (lines @ [[CHR 0x0A] @ full_name var @ '':'']) @ [take 1000 (comment var)]"

definition build_comment :: "('f \<Rightarrow> string) \<Rightarrow> 'f AggregatedResult \<Rightarrow> string" where
  "build_comment fmt2f self =
     (let lines0 =
            (if length (variations self) > 1
             then [''Parametrized test with '' @ str_of_nat (length (variations self))
                   @ '' variations:'' @ [CHR 0x0A]]
             else []);
          lines1 = foldl (append_variation_line fmt2f) lines0 (variations self);
          failed = filter (\<lambda>v. TestResult.status v = FAIL \<and> comment v \<noteq> [])
                     (variations self);
          lines2 =
            (if failed \<noteq> []
             then foldl append_failure_detail
                    (lines1 @ [[CHR 0x0A] @ ''--- Failure Details ---'']) (take 5 failed)
             else lines1)
      in str_join [CHR 0x0A] lines2)"

text \<open>The dictionary \<open>to_dict\<close> returns: its four keys as fields.\<close>

record 'f result_dict =
  d_test_key :: string
  d_status :: string
  d_comment :: string
  d_duration :: 'f

definition to_dict :: "('f \<Rightarrow> string) \<Rightarrow> 'f AggregatedResult \<Rightarrow> 'f result_dict" where
  "to_dict fmt2f self =
     \<lparr>d_test_key = test_key self, d_status = status self,
      d_comment = build_comment fmt2f self, d_duration = total_duration self\<rparr>"

text \<open>
  \<open>XrayClient.import_execution_results\<close> builds the payload and posts it; the model
  returns the request it sends: the endpoint, the execution key and the tests.
\<close>

record xray_test =
  testKey :: string
  x_status :: string
  x_comment :: string

definition import_execution_results ::
  "string \<Rightarrow> 'f result_dict list \<Rightarrow> string \<times> string \<times> xray_test list" where
  "import_execution_results execution_key results =
     (''/rest/raven/1.0/import/execution'', execution_key,
      map (\<lambda>r. \<lparr>testKey = d_test_key r, x_status = d_status r,
                 x_comment = take 32000 (d_comment r)\<rparr>) results)"

text \<open>
  The comment as the specification describes it: an optional count line, one line per
  variation, and an optional block of failure details.
\<close>

definition failing_with_detail :: "'f TestResult \<Rightarrow> bool" where
  "failing_with_detail v = (TestResult.status v = FAIL \<and> comment v \<noteq> [])"

definition comment_lines_spec :: "('f \<Rightarrow> string) \<Rightarrow> 'f TestResult list \<Rightarrow> string list" where
  "comment_lines_spec fmt2f vs =
     (if length vs > 1
      then [''Parametrized test with '' @ str_of_nat (length vs) @ '' variations:''
            @ [CHR 0x0A]]
      else [])
     @ map (\<lambda>v. status_icon (TestResult.status v) @ '' '' @ full_name v @ '' - ''
                @ TestResult.status v @ '' ('' @ fmt2f (duration v) @ ''s)'') vs
     @ (if filter failing_with_detail vs \<noteq> []
        then ([CHR 0x0A] @ ''--- Failure Details ---'')
             # concat (map (\<lambda>v. [[CHR 0x0A] @ full_name v @ '':'', take 1000 (comment v)])
                        (take 5 (filter failing_with_detail vs)))
        else [])"

subsection \<open>ResultAggregator.aggregate\<close>

text \<open>
  A Python dictionary keeps its keys in insertion order, so \<open>aggregates\<close> is an
  association list: a new key goes to the end, and a value is changed in place.
\<close>

definition dict_contains :: "('k \<times> 'v) list \<Rightarrow> 'k \<Rightarrow> bool" where
  "dict_contains d k = (k \<in> set (map fst d))"

definition dict_set :: "('k \<times> 'v) list \<Rightarrow> 'k \<Rightarrow> 'v \<Rightarrow> ('k \<times> 'v) list" where
  "dict_set d k v =
     (if dict_contains d k then map (\<lambda>(k', v'). if k' = k then (k', v) else (k', v')) d
      else d @ [(k, v)])"

definition dict_modify :: "('k \<times> 'v) list \<Rightarrow> 'k \<Rightarrow> ('v \<Rightarrow> 'v) \<Rightarrow> ('k \<times> 'v) list" where
  "dict_modify d k f = map (\<lambda>(k', v'). if k' = k then (k', f v') else (k', v')) d"

text \<open>
  The body of the loop of \<open>aggregate\<close>, on the pair of \<open>aggregates\<close> and \<open>unmatched\<close>.
  The lookup \<open>self.mapping[test.name]\<close> runs only where the name is in the mapping, and
  \<open>aggregates[test.name]\<close> only after the key is set, so neither can raise.
\<close>

definition aggregate_step ::
  "(string \<rightharpoonup> string) \<Rightarrow> (string \<times> ('f::{zero,plus}) AggregatedResult) list \<times> string set
     \<Rightarrow> 'f TestResult \<Rightarrow> (string \<times> 'f AggregatedResult) list \<times> string set" where
  "aggregate_step mapping st test =
     (case st of (aggregates, unmatched) \<Rightarrow>
        (case mapping (name test) of
           None \<Rightarrow> (aggregates, insert (name test) unmatched)
         | Some key \<Rightarrow>
            (let aggregates1 =
                   (if \<not> dict_contains aggregates (name test)
                    then dict_set aggregates (name test) (new_AggregatedResult key)
                    else aggregates)
             in (dict_modify aggregates1 (name test) (\<lambda>agg. add_variation agg test),
                 unmatched))))"

definition aggregate_loop ::
  "(string \<rightharpoonup> string) \<Rightarrow> ('f::{zero,plus}) TestResult list
     \<Rightarrow> (string \<times> 'f AggregatedResult) list \<times> string set" where
  "aggregate_loop mapping ts = foldl (aggregate_step mapping) ([], {}) ts"

text \<open>
  \<open>ResultAggregator.aggregate\<close>. The second component is \<open>list(unmatched)\<close>, a list of
  the set in no specified order; the model returns the set.
\<close>

definition aggregate ::
  "('f \<Rightarrow> string) \<Rightarrow> (string \<rightharpoonup> string) \<Rightarrow> ('f::{zero,plus}) ParsedResults
     \<Rightarrow> 'f result_dict list \<times> string set" where
  "aggregate fmt2f mapping results =
     (case aggregate_loop mapping (tests results) of
        (aggregates, unmatched) \<Rightarrow> (map (\<lambda>(k, agg). to_dict fmt2f agg) aggregates, unmatched))"

text \<open>
  The result of the loop in closed form: the matched names in order of first encounter,
  each with the group built from the records of that name, and the names that are not in
  the mapping. (The key of a group is looked up only for names in the mapping.)
\<close>

definition first_occurrences :: "'a list \<Rightarrow> 'a list" where
  "first_occurrences xs = rev (remdups (rev xs))"

definition matched_names :: "(string \<rightharpoonup> string) \<Rightarrow> 'f TestResult list \<Rightarrow> string list" where
  "matched_names m ts = first_occurrences (map name (filter (\<lambda>t. m (name t) \<noteq> None) ts))"

definition group_spec ::
  "(string \<rightharpoonup> string) \<Rightarrow> ('f::{zero,plus}) TestResult list \<Rightarrow> string
     \<Rightarrow> string \<times> 'f AggregatedResult" where
  "group_spec m ts k =
     (k, foldl add_variation (new_AggregatedResult (case m k of None \<Rightarrow> [] | Some key \<Rightarrow> key))
           (filter (\<lambda>t. name t = k) ts))"

text \<open>
  The specification's two counts: the variations over all matched groups, and the records
  whose clean name is not in the mapping.
\<close>

definition matched_variation_count :: "(string \<times> 'f AggregatedResult) list \<Rightarrow> nat" where
  "matched_variation_count aggs = sum_list (map (\<lambda>(k, a). length (variations a)) aggs)"

definition unmatched_record_count :: "(string \<rightharpoonup> string) \<Rightarrow> 'f TestResult list \<Rightarrow> nat" where
  "unmatched_record_count m ts = length (filter (\<lambda>t. m (name t) = None) ts)"

section \<open>The mapping cache (tools/test_script.py)\<close>

text \<open>
  What \<open>json.load\<close> can return. The cache file is meant to hold an object of strings,
  but \<open>load\<close> returns whatever value the file holds.
\<close>

datatype json =
    JNull
  | JBool bool
  | JNumber real
  | JString string
  | JArray "json list"
  | JObject "(string \<times> json) list"

text \<open>
  The state of the cache file as \<open>load\<close> sees it: \<open>exists()\<close> is false, or the file is
  there and opening and reading it with \<open>json.load\<close> either returns a value or raises.
  The library can raise \<open>OSError\<close> and its subclasses from \<open>open\<close>,
  \<open>UnicodeDecodeError\<close> from decoding bytes that are not UTF-8, \<open>JSONDecodeError\<close> from
  text that is not JSON, and \<open>RecursionError\<close> from deeply nested text.
\<close>

datatype read_outcome = Loaded json | Raises error

datatype cache_file = Missing | Present read_outcome

text \<open>\<open>isinstance(e, OSError)\<close>; \<open>IOError\<close> is another name of \<open>OSError\<close>.\<close>

definition is_OSError :: "error \<Rightarrow> bool" where
  "is_OSError e = (e = OSError \<or> e = FileNotFoundError \<or> e = PermissionError)"

text \<open>\<open>MappingCache.load\<close>, with its handler \<open>except (json.JSONDecodeError, IOError)\<close>.\<close>

definition load :: "cache_file \<Rightarrow> error + json" where
  "load cache_file =
     (case cache_file of
        Missing \<Rightarrow> Inr (JObject [])
      | Present (Loaded j) \<Rightarrow> Inr j
      | Present (Raises e) \<Rightarrow>
          if e = JSONDecodeError \<or> is_OSError e then Inr (JObject []) else Inl e)"

section \<open>The entry point of the import tool (tools/test_script.py)\<close>

text \<open>The namespace \<open>parse_args\<close> returns.\<close>

record import_args =
  junit_xml :: string
  project_key :: string
  test_set :: string
  test_environment :: "string option"
  version :: "string option"
  execution_summary :: "string option"
  execution_key :: "string option"
  refresh_mapping :: bool
  dry_run :: bool

text \<open>The truth value of an optional string: \<open>None\<close> and the empty string are false.\<close>

definition truthy :: "string option \<Rightarrow> bool" where
  "truthy s = (case s of None \<Rightarrow> False | Some v \<Rightarrow> v \<noteq> [])"

text \<open>The dictionary \<open>save_execution_info\<close> writes.\<close>

record run_info =
  i_execution_key :: string
  i_execution_url :: string
  i_timestamp :: string
  i_environment :: "string option"
  i_version :: "string option"
  i_total :: int
  i_passed :: int
  i_failed :: int
  i_skipped :: int
  i_matched :: int
  i_unmatched :: int

text \<open>
  What a run does to the outside: a line printed, or a JSON file written. The code of
  this file makes no remote call and reads no file: \<open>XrayClient\<close>, \<open>MappingCache\<close>,
  \<open>JUnitParser.parse\<close> and \<open>ResultAggregator\<close> are not called from \<open>main\<close>.
\<close>

datatype effect = Print string | WriteJson string run_info

text \<open>\<open>print_header\<close>: three calls of \<open>print\<close>.\<close>

definition print_header :: "string \<Rightarrow> effect list" where
  "print_header txt =
     [Print ([CHR 0x0A] @ replicate 60 CHR ''=''), Print txt, Print (replicate 60 CHR ''='')]"

text \<open>
  \<open>ReportGenerator.create_summary\<close>; \<open>ts\<close> is the formatted \<open>datetime.now()\<close>.
\<close>

definition create_summary ::
  "string \<Rightarrow> string option \<Rightarrow> string option \<Rightarrow> string option \<Rightarrow> string" where
  "create_summary ts env ver custom =
     (case custom of
        Some c \<Rightarrow>
          if c \<noteq> [] then c
          else str_join '' - ''
                 ([''Automated Test Run''] @ (if truthy env then [the env] else [])
                  @ (if truthy ver then [the ver] else []) @ [ts])
      | None \<Rightarrow>
          str_join '' - ''
            ([''Automated Test Run''] @ (if truthy env then [the env] else [])
             @ (if truthy ver then [the ver] else []) @ [ts]))"

text \<open>
  \<open>ReportGenerator.save_execution_info\<close>: the dictionary and the file it is written to;
  \<open>iso_now\<close> is \<open>datetime.now().isoformat()\<close>.
\<close>

definition save_execution_info ::
  "string \<Rightarrow> string \<Rightarrow> string \<Rightarrow> string option \<Rightarrow> string option \<Rightarrow> 'f ParsedResults \<Rightarrow> int \<Rightarrow> int
     \<Rightarrow> run_info \<times> effect list" where
  "save_execution_info iso_now key jira_url env ver results matched unmatched =
     (let info = \<lparr>i_execution_key = key, i_execution_url = jira_url @ ''/browse/'' @ key,
                   i_timestamp = iso_now, i_environment = env, i_version = ver,
                   i_total = total results, i_passed = passed results,
                   i_failed = failed results, i_skipped = skipped results,
                   i_matched = matched, i_unmatched = unmatched\<rparr>
      in (info, [WriteJson ''xray_execution_info.json'' info]))"

text \<open>
  \<open>main\<close>: the effects in order, and the exit code or the exception raised. The
  environment is a map of variable names. Without \<open>--execution-key\<close> the variable
  \<open>execution_key\<close> is read before it is assigned, which raises \<open>UnboundLocalError\<close>.
\<close>

definition steps_1_to_3 :: "import_args \<Rightarrow> effect list" where
  "steps_1_to_3 args =
     print_header ''STEP 1: Load test mapping''
     @ print_header ''STEP 2: Parse test results''
     @ [Print (''Parsing: '' @ junit_xml args),
        Print ([CHR 0x0A] @ ''   Total: 1| Passed: 1 | Failed: 1 | Skipped: 1'')]
     @ print_header ''STEP 3: Match results to Xray tests''
     @ [Print ''   Matched: 1 | Unmatched: 1'']"

definition main ::
  "string \<Rightarrow> string \<Rightarrow> (string \<rightharpoonup> string) \<Rightarrow> import_args \<Rightarrow> effect list \<times> (error + int)" where
  "main ts iso_now environ args =
     (let jira_url = environ ''JIRA_URL'';
          jira_token = environ ''JIRA_TOKEN''
      in if \<not> truthy jira_url \<or> \<not> truthy jira_token
         then ([Print ''[ERROR] Set JIRA_URL and JIRA_TOKEN environment variables''], Inr 1)
         else if dry_run args
         then (steps_1_to_3 args @ print_header ''DRY RUN - No execution created'', Inr 0)
         else
           (let out4 = steps_1_to_3 args @ print_header ''STEP 4: Create Test Execution'';
                summary = create_summary ts (test_environment args) (version args)
                            (execution_summary args)
            in if truthy (execution_key args)
               then
                 (let key = the (execution_key args);
                      out5 = out4 @ [Print (''   Using existing: '' @ key)]
                             @ print_header ''STEP 5: Import results''
                             @ [Print ''   Adding 5 tests...'',
                                Print ''   Importing results...'',
                                Print ''   [OK] Done''];
                      results = \<lparr>total = 5, passed = 3, failed = 1, skipped = 1,
                                 tests = ([] :: real TestResult list)\<rparr>;
                      saved = save_execution_info iso_now key (the jira_url)
                                (test_environment args) (version args) results 5 0
                  in (out5 @ snd saved @ print_header ''SUCCESS''
                        @ [Print (''   Execution: '' @ key),
                           Print (''   URL: '' @ i_execution_url (fst saved)),
                           Print ''   Tests: 5 imported''],
                      Inr 0))
               else (out4 @ [Print (''   Creating: '' @ summary)], Inl UnboundLocalError)))"

text \<open>Whether an effect is a printed line and nothing else.\<close>

fun is_print :: "effect \<Rightarrow> bool" where
  "is_print (Print s) = True"
| "is_print (WriteJson p i) = False"

section \<open>The upload tool (main.py, storage/bucket.py)\<close>

text \<open>
  The namespace \<open>parse_args\<close> of \<open>main.py\<close> returns; \<open>key_prefix\<close> is its \<open>prefix\<close>.
\<close>

record upload_args =
  dir_path :: string
  file_type :: string
  bucket_name :: string
  key_prefix :: string
  versioning :: bool
  lifecycle :: "int option"

text \<open>A \<open>Movie\<close> or \<open>Stream\<close>: a file's name and its path.\<close>

record local_file =
  f_name :: string
  f_path :: string

text \<open>
  The rule \<open>Bucket.set_lifecycle\<close> sends (its \<open>Filter\<close> is always empty), and the client
  calls the tool makes.
\<close>

record lifecycle_rule =
  rule_ID :: string
  rule_Prefix :: string
  rule_Status :: string
  expiration_days :: int
  noncurrent_days :: "int option"

datatype s3_call =
    CreateBucket string
  | PutBucketVersioning string string
  | PutBucketLifecycleConfiguration string lifecycle_rule
  | UploadFile string string string
  | Close

text \<open>
  The storage service is a function from a call to its outcome: \<open>None\<close> when the call
  succeeds, or the exception it raises. \<open>run_calls\<close> makes calls in order until one
  raises, and returns the calls made and the exception, if any.
\<close>

fun run_calls :: "(s3_call \<Rightarrow> error option) \<Rightarrow> s3_call list \<Rightarrow> s3_call list \<times> error option" where
  "run_calls client [] = ([], None)"
| "run_calls client (c # cs) =
     (case client c of
        Some e \<Rightarrow> ([c], Some e)
      | None \<Rightarrow> (case run_calls client cs of (made, r) \<Rightarrow> (c # made, r)))"

text \<open>
  \<open>Bucket.set_lifecycle\<close>: the noncurrent expiration is added only when the argument is
  given and not zero.
\<close>

definition set_lifecycle :: "string \<Rightarrow> string \<Rightarrow> int \<Rightarrow> int option \<Rightarrow> s3_call" where
  "set_lifecycle bucket policy_name expiration noncurrent =
     PutBucketLifecycleConfiguration bucket
       \<lparr>rule_ID = policy_name, rule_Prefix = '''', rule_Status = ''Enabled'',
        expiration_days = expiration,
        noncurrent_days = (case noncurrent of
                             None \<Rightarrow> None
                           | Some d \<Rightarrow> if d \<noteq> 0 then Some d else None)\<rparr>"

text \<open>\<open>Bucket.set_versioning\<close>, with its assertion on the status.\<close>

definition set_versioning :: "string \<Rightarrow> string \<Rightarrow> error + s3_call" where
  "set_versioning bucket st =
     (if st = ''Enabled'' \<or> st = ''Suspended'' then Inr (PutBucketVersioning bucket st)
      else Inl AssertionError)"

text \<open>
  The calls of \<open>main\<close> after the bucket is created: versioning, lifecycle, the uploads,
  for a stream the two JSON files, and \<open>close\<close>. The flag \<open>versioning\<close> is the local
  variable after the branch on the file type.
\<close>

definition calls_after_create :: "upload_args \<Rightarrow> bool \<Rightarrow> local_file list \<Rightarrow> error + s3_call list" where
  "calls_after_create args versioning1 files =
     bind_result
       (if versioning1
        then bind_result (set_versioning (bucket_name args) ''Enabled'') (\<lambda>c. Inr [c])
        else Inr [])
       (\<lambda>vcalls.
          Inr (vcalls
               @ (case lifecycle args of
                    None \<Rightarrow> []
                  | Some d \<Rightarrow>
                      if d \<noteq> 0 \<and> \<not> versioning1
                        then [set_lifecycle (bucket_name args) ''ScriptLifecycle'' d None]
                      else if d \<noteq> 0 \<and> versioning1
                        then [set_lifecycle (bucket_name args) ''ScriptLifecycle'' d (Some d)]
                      else [])
               @ map (\<lambda>f. UploadFile (f_path f) (bucket_name args) (key_prefix args @ f_name f))
                   files
               @ (if lower (file_type args) = ''stream''
                  then [UploadFile ''meta.json'' (bucket_name args)
                          (key_prefix args @ ''_meta.json''),
                        UploadFile ''index.json'' (bucket_name args)
                          (key_prefix args @ ''_index.json'')]
                  else [])
               @ [Close]))"

text \<open>
  \<open>main\<close> of the upload tool: the client calls made, and the exception that ended the run
  or \<open>None\<close>. \<open>dir_exists\<close> is \<open>args.dir_path.exists()\<close> and \<open>files\<close> the files of the
  directory in the order they are listed. \<open>Bucket.create\<close> swallows the client error
  with code \<open>BucketAlreadyOwnedByYou\<close> and lets every other exception through.
\<close>

definition upload_main ::
  "(s3_call \<Rightarrow> error option) \<Rightarrow> bool \<Rightarrow> local_file list \<Rightarrow> upload_args
     \<Rightarrow> s3_call list \<times> error option" where
  "upload_main client dir_exists files args =
     (if \<not> dir_exists then ([], Some FileNotFoundError)
      else if lower (file_type args) \<noteq> ''movie'' \<and> lower (file_type args) \<noteq> ''stream''
        then ([], Some ValueError)
      else if length (bucket_name args) < 3 then ([], Some ValueError)
      else if (case lifecycle args of None \<Rightarrow> False | Some d \<Rightarrow> d \<le> 0)
        then ([], Some ValueError)
      else
        (let versioning1 =
               (if lower (file_type args) = ''movie'' then True
                else if lower (file_type args) = ''stream'' then False
                else versioning args);
             created = client (CreateBucket (bucket_name args))
         in if created \<noteq> None \<and> created \<noteq> Some (ClientError ''BucketAlreadyOwnedByYou'')
            then ([CreateBucket (bucket_name args)], created)
            else
              (case calls_after_create args versioning1 files of
                 Inl e \<Rightarrow> ([CreateBucket (bucket_name args)], Some e)
               | Inr cs \<Rightarrow>
                  (case run_calls client cs of
                     (made, r) \<Rightarrow> (CreateBucket (bucket_name args) # made, r)))))"

section \<open>Example inputs\<close>

text \<open>\<open>float\<close> on the literals the examples use.\<close>

definition example_float :: "string \<Rightarrow> real option" where
  "example_float s =
     (if s = ''0'' then Some 0
      else if s = ''0.5'' then Some (1 / 2)
      else if s = ''1.25'' then Some (5 / 4)
      else None)"





definition example_pass :: "real TestResult" where
  "example_pass =
     \<lparr>name = ''test_x'', full_name = ''test_x[1]'', status = PASS, comment = '''',
      duration = 1 / 2\<rparr>"

definition example_fail :: "real TestResult" where
  "example_fail =
     \<lparr>name = ''test_x'', full_name = ''test_x[2]'', status = FAIL, comment = ''boom'',
      duration = 5 / 4\<rparr>"

text \<open>Testcase elements: an expected failure, the same with an upper-case type, one whose
  time attribute is not a number, and a failure with a message and a body.\<close>

definition example_xfail_testcase :: element where
  "example_xfail_testcase =
     Element ''testcase'' [''name'' \<mapsto> ''test_known[a]'', ''time'' \<mapsto> ''0.5''] None
       [Element ''skipped'' [''type'' \<mapsto> ''xfail'', ''message'' \<mapsto> ''known bug''] None []]"

definition example_upper_xfail_testcase :: element where
  "example_upper_xfail_testcase =
     Element ''testcase'' [''name'' \<mapsto> ''test_known[b]'', ''time'' \<mapsto> ''0.5''] None
       [Element ''skipped'' [''type'' \<mapsto> ''XFAIL'', ''message'' \<mapsto> ''known bug''] None []]"

definition example_bad_time_testcase :: element where
  "example_bad_time_testcase =
     Element ''testcase'' [''name'' \<mapsto> ''test_known[c]'', ''time'' \<mapsto> ''soon''] None
       [Element ''skipped'' [''type'' \<mapsto> ''xfail'', ''message'' \<mapsto> ''known bug''] None []]"

definition example_failure_testcase :: element where
  "example_failure_testcase =
     Element ''testcase'' [''name'' \<mapsto> ''test_login[chrome]'', ''time'' \<mapsto> ''1.25''] None
       [Element ''failure'' [''message'' \<mapsto> ''timeout''] (Some ''stack'') []]"

definition example_bad_time_failure :: element where
  "example_bad_time_failure =
     Element ''testcase'' [''name'' \<mapsto> ''test_login[chrome]'', ''time'' \<mapsto> ''1,25''] None
       [Element ''failure'' [''message'' \<mapsto> ''timeout''] (Some ''stack'') []]"

text \<open>A formatter on the two example durations, and the group of the two example records.\<close>

definition example_fmt2f :: "real \<Rightarrow> string" where
  "example_fmt2f d =
     (if d = 1 / 2 then ''0.50'' else if d = 5 / 4 then ''1.25'' else ''0.00'')"

definition example_group :: "real AggregatedResult" where
  "example_group =
     foldl add_variation (new_AggregatedResult ''KEY-1'') [example_pass, example_fail]"

text \<open>
  A run with two variations of a mapped test and one unmapped test: the report, its text
  and file, and the result of parsing it.
\<close>

definition example_unmatched :: "real TestResult" where
  "example_unmatched =
     \<lparr>name = ''test_y'', full_name = ''test_y'', status = PASS, comment = '''',
      duration = 0\<rparr>"

definition example_results :: "real ParsedResults" where
  "example_results =
     \<lparr>total = 3, passed = 2, failed = 1, skipped = 0,
      tests = [example_pass, example_fail, example_unmatched]\<rparr>"

definition example_mapping :: "string \<rightharpoonup> string" where
  "example_mapping = [''test_x'' \<mapsto> ''KEY-1'']"

definition example_named_suite :: element where
  "example_named_suite =
     Element ''testsuite'' Map.empty None
       [Element ''testcase'' [''name'' \<mapsto> ''test_x[1]'', ''time'' \<mapsto> ''0.5''] None [],
        Element ''testcase'' [''name'' \<mapsto> ''test_x[2]'', ''time'' \<mapsto> ''1.25''] None
          [Element ''failure'' [''message'' \<mapsto> ''boom''] None []],
        Element ''testcase'' [''name'' \<mapsto> ''test_y''] None []]"

definition xml_attr :: "string \<Rightarrow> string \<Rightarrow> string" where
  "xml_attr k v = '' '' @ k @ ''='' @ [CHR 0x22] @ v @ [CHR 0x22]"

definition example_named_text :: string where
  "example_named_text =
     ''<testsuite><testcase'' @ xml_attr ''name'' ''test_x[1]'' @ xml_attr ''time'' ''0.5''
     @ ''/><testcase'' @ xml_attr ''name'' ''test_x[2]'' @ xml_attr ''time'' ''1.25''
     @ ''><failure'' @ xml_attr ''message'' ''boom'' @ ''/></testcase><testcase''
     @ xml_attr ''name'' ''test_y'' @ ''/></testsuite>''"

definition example_named_xml_parse :: "string \<Rightarrow> element option" where
  "example_named_xml_parse s =
     (if s = example_named_text then Some example_named_suite else None)"

definition example_named_fs :: "string \<rightharpoonup> string" where
  "example_named_fs = [''named.xml'' \<mapsto> example_named_text]"

text \<open>
  A dry run with credentials set, on a report path; \<open>main\<close> never looks at the path.
\<close>

definition example_environ :: "string \<rightharpoonup> string" where
  "example_environ = [''JIRA_URL'' \<mapsto> ''https://jira.example/jira'', ''JIRA_TOKEN'' \<mapsto> ''secret'']"

definition example_dry_run_args :: import_args where
  "example_dry_run_args =
     \<lparr>junit_xml = ''missing.xml'', project_key = ''LCTEST'', test_set = ''rs-automation'',
      test_environment = None, version = None, execution_summary = None,
      execution_key = None, refresh_mapping = False, dry_run = True\<rparr>"

text \<open>A service on which every call succeeds, and a movie run and a stream run.\<close>

definition all_succeed :: "s3_call \<Rightarrow> error option" where
  "all_succeed c = None"

definition example_movie_args :: upload_args where
  "example_movie_args =
     \<lparr>dir_path = ''videos'', file_type = ''movie'', bucket_name = ''qa-videos'',
      key_prefix = ''m/'', versioning = False, lifecycle = Some 30\<rparr>"

definition example_stream_args :: upload_args where
  "example_stream_args =
     \<lparr>dir_path = ''videos'', file_type = ''stream'', bucket_name = ''qa-videos'',
      key_prefix = ''s/'', versioning = True, lifecycle = Some 30\<rparr>"

definition example_files :: "local_file list" where
  "example_files = [\<lparr>f_name = ''a.mp4'', f_path = ''videos/a.mp4''\<rparr>]"

section \<open>Properties\<close>

subsection \<open>Status priority\<close>

lemma status_distinct:
  "PASS \<noteq> FAIL" "PASS \<noteq> TODO" "PASS \<noteq> CONDITIONALPASS"
  "FAIL \<noteq> TODO" "FAIL \<noteq> CONDITIONALPASS" "TODO \<noteq> CONDITIONALPASS"
  by (simp_all add: PASS_def FAIL_def TODO_def CONDITIONALPASS_def)

lemma add_variation_status:
  "known_status (status a) \<Longrightarrow>
   status (add_variation a r) = priority_rule_spec (status a) (TestResult.status r)"
  using status_distinct
  by (auto simp: add_variation_def priority_rule_spec_def known_status_def Let_def)

lemma add_variation_known:
  "known_status (status a) \<Longrightarrow> known_status (status (add_variation a r))"
  by (auto simp: add_variation_def known_status_def Let_def)

lemma foldl_add_variation_known:
  "known_status (status a) \<Longrightarrow> known_status (status (foldl add_variation a vs))"
  by (induction vs arbitrary: a) (simp_all add: add_variation_known)

lemma worst_status_step:
  "known_status s \<Longrightarrow>
   worst_status (insert (priority_rule_spec s n) S) = worst_status (insert s (insert n S))"
  using status_distinct
  by (auto simp: worst_status_def priority_rule_spec_def known_status_def)

lemma foldl_add_variation_status:
  "known_status (status a) \<Longrightarrow>
   status (foldl add_variation a vs) =
     worst_status (insert (status a) (set (map TestResult.status vs)))"
proof (induction vs arbitrary: a)
  case Nil
  then show ?case
    using status_distinct by (auto simp: worst_status_def known_status_def)
next
  case (Cons v vs)
  have k: "known_status (status (add_variation a v))"
    using Cons.prems by (rule add_variation_known)
  have "status (foldl add_variation a (v # vs)) =
        worst_status (insert (status (add_variation a v)) (set (map TestResult.status vs)))"
    using Cons.IH [OF k] by simp
  also have "\<dots> = worst_status (insert (priority_rule_spec (status a) (TestResult.status v))
                      (set (map TestResult.status vs)))"
    using Cons.prems by (simp add: add_variation_status)
  also have "\<dots> = worst_status (insert (status a)
                      (insert (TestResult.status v) (set (map TestResult.status vs))))"
    using Cons.prems by (rule worst_status_step)
  finally show ?case by simp
qed

lemma new_AggregatedResult_known: "known_status (status (new_AggregatedResult k))"
  by (simp add: new_AggregatedResult_def known_status_def)

text \<open>
  Claim C1. Starting from a fresh group (status PASS), every step of \<open>add_variation\<close>
  sets the status to what the specification's priority rule gives for the current status
  and the new record's status, and the final status does not depend on the order of the
  variations: two lists that are permutations of each other end in the same status.
\<close>

theorem add_variation_priority_order_independent:
  assumes "mset vs = mset ws"
  shows "status (add_variation (foldl add_variation (new_AggregatedResult k) vs) r) =
           priority_rule_spec (status (foldl add_variation (new_AggregatedResult k) vs))
             (TestResult.status r)
         \<and> status (foldl add_variation (new_AggregatedResult k) vs) =
           status (foldl add_variation (new_AggregatedResult k) ws)"
proof -
  have "set vs = set ws"
    using assms by (rule mset_eq_setD)
  then have "set (map TestResult.status vs) = set (map TestResult.status ws)"
    by simp
  then have "status (foldl add_variation (new_AggregatedResult k) vs) =
             status (foldl add_variation (new_AggregatedResult k) ws)"
    by (simp add: foldl_add_variation_status new_AggregatedResult_known)
  moreover have "status (add_variation (foldl add_variation (new_AggregatedResult k) vs) r) =
           priority_rule_spec (status (foldl add_variation (new_AggregatedResult k) vs))
             (TestResult.status r)"
    by (rule add_variation_status)
       (rule foldl_add_variation_known, rule new_AggregatedResult_known)
  ultimately show ?thesis by simp
qed

theorem add_variation_priority_order_independent_witness:
  "mset [example_fail, example_pass] = mset [example_pass, example_fail]
   \<and> status (add_variation
         (foldl add_variation (new_AggregatedResult ''KEY-1'') [example_fail, example_pass])
         example_pass) =
       priority_rule_spec
         (status (foldl add_variation (new_AggregatedResult ''KEY-1'')
            [example_fail, example_pass]))
         (TestResult.status example_pass)
   \<and> status (foldl add_variation (new_AggregatedResult ''KEY-1'')
         [example_fail, example_pass]) =
       status (foldl add_variation (new_AggregatedResult ''KEY-1'')
         [example_pass, example_fail])"
proof -
  have h: "mset [example_fail, example_pass] = mset [example_pass, example_fail]"
    by simp
  show ?thesis
    using h add_variation_priority_order_independent [OF h, of "''KEY-1''" example_pass]
    by blast
qed

subsection \<open>Clean names\<close>

lemma str_split_hd: "str_split sep s = truncate_at sep s # tl (str_split sep s)"
  by (induction s) (auto simp: truncate_at_def split: list.splits)

lemma item0_str_split: "item0 (str_split sep s) = Inr (truncate_at sep s)"
  by (subst str_split_hd) (simp add: item0_def)

lemma clean_name_of_eq:
  "clean_name_of n = Inr (truncate_at CHR ''['' (truncate_at CHR '' '' n))"
  by (simp add: clean_name_of_def bind_result_def item0_str_split)

lemma truncate_at_id: "c \<notin> set s \<Longrightarrow> truncate_at c s = s"
  by (auto simp: truncate_at_def)

lemma truncate_at_notin: "c \<notin> set (truncate_at c s)"
  unfolding truncate_at_def by (induction s) auto

lemma truncate_at_subset: "set (truncate_at c s) \<subseteq> set s"
  unfolding truncate_at_def by (meson set_takeWhileD subsetI)

text \<open>
  Claim C5. The clean name is the full name truncated at the first space and then at the
  first opening bracket, and the derivation never raises. Deriving again from a clean
  name gives the same name, and a name with neither a space nor a bracket is returned
  unchanged.
\<close>

theorem clean_name_truncates_idempotent:
  "clean_name_of n = Inr (truncate_at CHR ''['' (truncate_at CHR '' '' n))
   \<and> bind_result (clean_name_of n) clean_name_of = clean_name_of n
   \<and> (CHR '' '' \<notin> set n \<and> CHR ''['' \<notin> set n \<longrightarrow> clean_name_of n = Inr n)"
proof -
  let ?a = "truncate_at CHR '' '' n"
  let ?b = "truncate_at CHR ''['' ?a"
  have 1: "CHR '' '' \<notin> set ?b"
    using truncate_at_notin [of "CHR '' ''" n] truncate_at_subset [of "CHR ''[''" ?a] by blast
  have 2: "CHR ''['' \<notin> set ?b" by (rule truncate_at_notin)
  have "clean_name_of ?b = Inr ?b"
    using 1 2 by (simp add: clean_name_of_eq truncate_at_id)
  then show ?thesis
    by (simp add: clean_name_of_eq bind_result_def truncate_at_id)
qed

theorem clean_name_truncates_idempotent_witness:
  "CHR '' '' \<notin> set ''test_login'' \<and> CHR ''['' \<notin> set ''test_login''
   \<and> clean_name_of ''test_login'' = Inr ''test_login''
   \<and> clean_name_of ''test_login[chrome] on qa7'' =
       Inr (truncate_at CHR ''['' (truncate_at CHR '' '' ''test_login[chrome] on qa7''))
   \<and> truncate_at CHR ''['' (truncate_at CHR '' '' ''test_login[chrome] on qa7'') = ''test_login''"
proof -
  have h: "CHR '' '' \<notin> set ''test_login'' \<and> CHR ''['' \<notin> set ''test_login''"
    by simp
  have t: "truncate_at CHR ''['' (truncate_at CHR '' '' ''test_login[chrome] on qa7'') =
           ''test_login''"
    by (simp add: truncate_at_def)
  show ?thesis
    using h t clean_name_truncates_idempotent [of "''test_login''"]
      clean_name_truncates_idempotent [of "''test_login[chrome] on qa7''"]
    by blast
qed

subsection \<open>Counters of the parser\<close>




lemma count_result_total: "total (count_result rs x) = total rs + 1"
  by (simp add: count_result_def Let_def)

lemma count_result_sum:
  "passed (count_result rs x) + failed (count_result rs x) + skipped (count_result rs x) =
   passed rs + failed rs + skipped rs + 1"
  by (simp add: count_result_def Let_def)

lemma count_result_tests: "tests (count_result rs x) = tests rs @ [x]"
  by (simp add: count_result_def Let_def)

lemma parse_loop_counts:
  "parse_loop float_of rs tcs = Inr r \<Longrightarrow>
   total r = total rs + int (length tcs)
   \<and> passed r + failed r + skipped r = passed rs + failed rs + skipped rs + int (length tcs)
   \<and> length (tests r) = length (tests rs) + length tcs"
proof (induction tcs arbitrary: rs)
  case Nil
  then show ?case by simp
next
  case (Cons tc tcs)
  from Cons.prems obtain x where x: "parse_testcase float_of tc = Inr x"
    and rest: "parse_loop float_of (count_result rs x) tcs = Inr r"
    by (auto simp: bind_result_def split: sum.splits)
  show ?case
    using Cons.IH [OF rest]
    by (simp add: count_result_total count_result_sum count_result_tests)
qed

lemma parse_total_length:
  "parse fs xml_parse float_of junit_file = Inr r \<Longrightarrow> total r = int (length (tests r))"
proof -
  assume "parse fs xml_parse float_of junit_file = Inr r"
  then obtain doc where
    "parse_loop float_of new_ParsedResults (findall_descendants doc ''testcase'') = Inr r"
    by (auto simp: parse_def split: option.splits)
  from parse_loop_counts [OF this] show ?thesis
    by (simp add: new_ParsedResults_def)
qed






subsection \<open>Records of single testcases\<close>

lemma parse_testcase_float:
  "float_of (get tc ''time'' ''0'') = Some d \<Longrightarrow>
   parse_testcase float_of tc =
     (let fn = get tc ''name'' '''';
          clean_name = truncate_at CHR ''['' (truncate_at CHR '' '' fn)
      in case find_child tc ''failure'' of
           Some f \<Rightarrow> Inr \<lparr>name = clean_name, full_name = fn, status = FAIL,
                           comment = extract_message f, duration = d\<rparr>
         | None \<Rightarrow>
            (case find_child tc ''error'' of
               Some e \<Rightarrow> Inr \<lparr>name = clean_name, full_name = fn, status = FAIL,
                               comment = extract_message e, duration = d\<rparr>
             | None \<Rightarrow>
                (case find_child tc ''skipped'' of
                   Some s \<Rightarrow>
                     (if str_contains ''xfail'' (lower (get s ''type'' ''''))
                         \<and> \<not> str_contains ''skip'' (lower (get s ''type'' ''''))
                      then Inr \<lparr>name = clean_name, full_name = fn, status = CONDITIONALPASS,
                                comment = ''XFAIL: '' @ get s ''message'' '''', duration = d\<rparr>
                      else Inr \<lparr>name = clean_name, full_name = fn, status = TODO,
                                comment = (if get s ''message'' '''' = [] then ''Skipped''
                                           else get s ''message'' ''''),
                                duration = d\<rparr>)
                 | None \<Rightarrow> Inr \<lparr>name = clean_name, full_name = fn, status = PASS,
                                 comment = '''', duration = d\<rparr>)))"
  by (cases "find_child tc ''failure''"; cases "find_child tc ''error''";
      cases "find_child tc ''skipped''";
      simp add: parse_testcase_def py_float_def bind_result_def clean_name_of_eq Let_def)


lemma count_result_conditionalpass:
  "TestResult.status x = CONDITIONALPASS \<Longrightarrow>
   passed (count_result rs x) = passed rs + 1 \<and> skipped (count_result rs x) = skipped rs"
  by (simp add: count_result_def Let_def)

lemma count_result_todo:
  "TestResult.status x = TODO \<Longrightarrow>
   skipped (count_result rs x) = skipped rs + 1 \<and> passed (count_result rs x) = passed rs"
  using status_distinct by (simp add: count_result_def Let_def)

text \<open>
  Claim C4, as amended. For a testcase with no failure and no error child whose time
  attribute is accepted by \<open>float\<close>, and whose first skipped child is \<open>sk\<close>: when the
  lower-cased type of \<open>sk\<close> contains \<open>xfail\<close> and not \<open>skip\<close>, the record has status
  CONDITIONALPASS and detail \<open>XFAIL: \<close> followed by the message, and counting it
  increments \<open>passed\<close> and leaves \<open>skipped\<close>; otherwise the record has status TODO and
  detail the message, or \<open>Skipped\<close> when the message is empty, and counting it increments
  \<open>skipped\<close>.
\<close>

theorem skipped_child_classification:
  assumes "find_child tc ''failure'' = None" and "find_child tc ''error'' = None"
    and "find_child tc ''skipped'' = Some sk"
    and "float_of (get tc ''time'' ''0'') = Some d"
  shows "\<exists>r. parse_testcase float_of tc = Inr r
           \<and> full_name r = get tc ''name'' '''' \<and> duration r = d
           \<and> (if str_contains ''xfail'' (lower (get sk ''type'' ''''))
                  \<and> \<not> str_contains ''skip'' (lower (get sk ''type'' ''''))
               then TestResult.status r = CONDITIONALPASS
                    \<and> comment r = ''XFAIL: '' @ get sk ''message'' ''''
                    \<and> passed (count_result rs r) = passed rs + 1
                    \<and> skipped (count_result rs r) = skipped rs
               else TestResult.status r = TODO
                    \<and> comment r = (if get sk ''message'' '''' = [] then ''Skipped''
                                    else get sk ''message'' '''')
                    \<and> skipped (count_result rs r) = skipped rs + 1
                    \<and> passed (count_result rs r) = passed rs)"
proof (cases "str_contains ''xfail'' (lower (get sk ''type'' ''''))
                  \<and> \<not> str_contains ''skip'' (lower (get sk ''type'' ''''))")
  case True
  let ?r = "\<lparr>name = truncate_at CHR ''['' (truncate_at CHR '' '' (get tc ''name'' '''')),
             full_name = get tc ''name'' '''', status = CONDITIONALPASS,
             comment = ''XFAIL: '' @ get sk ''message'' '''', duration = d\<rparr>"
  have "parse_testcase float_of tc = Inr ?r"
    using True by (simp add: parse_testcase_float [of float_of tc d, OF assms(4)] assms(1-3) Let_def)
  moreover have "passed (count_result rs ?r) = passed rs + 1
                 \<and> skipped (count_result rs ?r) = skipped rs"
    by (rule count_result_conditionalpass) simp
  ultimately show ?thesis using True by simp
next
  case False
  let ?r = "\<lparr>name = truncate_at CHR ''['' (truncate_at CHR '' '' (get tc ''name'' '''')),
             full_name = get tc ''name'' '''', status = TODO,
             comment = (if get sk ''message'' '''' = [] then ''Skipped''
                        else get sk ''message'' ''''), duration = d\<rparr>"
  have "parse_testcase float_of tc = Inr ?r"
    using False by (simp add: parse_testcase_float [of float_of tc d, OF assms(4)] assms(1-3) Let_def)
  moreover have "skipped (count_result rs ?r) = skipped rs + 1
                 \<and> passed (count_result rs ?r) = passed rs"
    by (rule count_result_todo) simp
  ultimately show ?thesis using False by simp
qed


text \<open>
  Claim C6, as amended. For a testcase whose time attribute is accepted by \<open>float\<close> and
  which has a failure child, or no failure child and an error child, the record has
  status FAIL, and its detail is the child's message, followed, when the child has a
  non-empty body, by two newline characters and the first 2000 characters of the body.
  With both children present the failure child is the one used.
\<close>

theorem failure_child_detail:
  assumes "find_child tc ''failure'' = Some ch
           \<or> (find_child tc ''failure'' = None \<and> find_child tc ''error'' = Some ch)"
    and "float_of (get tc ''time'' ''0'') = Some d"
  shows "\<exists>r. parse_testcase float_of tc = Inr r
           \<and> TestResult.status r = FAIL
           \<and> comment r = get ch ''message'' ''''
                @ (case etext ch of
                     None \<Rightarrow> []
                   | Some t \<Rightarrow> if t = [] then [] else [CHR 0x0A, CHR 0x0A] @ take 2000 t)"
proof -
  have m: "extract_message ch = get ch ''message'' ''''
                @ (case etext ch of
                     None \<Rightarrow> []
                   | Some t \<Rightarrow> if t = [] then [] else [CHR 0x0A, CHR 0x0A] @ take 2000 t)"
    by (simp add: extract_message_def Let_def split: option.splits)
  let ?r = "\<lparr>name = truncate_at CHR ''['' (truncate_at CHR '' '' (get tc ''name'' '''')),
             full_name = get tc ''name'' '''', status = FAIL,
             comment = extract_message ch, duration = d\<rparr>"
  have "parse_testcase float_of tc = Inr ?r"
    using assms(1)
    by (auto simp: parse_testcase_float [of float_of tc d, OF assms(2)] Let_def)
  then show ?thesis using m by simp
qed

theorem skipped_child_classification_witness:
  "find_child example_xfail_testcase ''failure'' = None
   \<and> find_child example_xfail_testcase ''error'' = None
   \<and> find_child example_xfail_testcase ''skipped'' =
       Some (Element ''skipped'' [''type'' \<mapsto> ''xfail'', ''message'' \<mapsto> ''known bug''] None [])
   \<and> example_float (get example_xfail_testcase ''time'' ''0'') = Some (1 / 2)
   \<and> (\<exists>r. parse_testcase example_float example_xfail_testcase = Inr r
          \<and> TestResult.status r = CONDITIONALPASS
          \<and> comment r = ''XFAIL: known bug''
          \<and> passed (count_result new_ParsedResults r) = 1
          \<and> skipped (count_result new_ParsedResults r) = 0)"
proof -
  let ?sk = "Element ''skipped'' [''type'' \<mapsto> ''xfail'', ''message'' \<mapsto> ''known bug''] None []"
  have h1: "find_child example_xfail_testcase ''failure'' = None"
    and h2: "find_child example_xfail_testcase ''error'' = None"
    and h3: "find_child example_xfail_testcase ''skipped'' = Some ?sk"
    and h4: "example_float (get example_xfail_testcase ''time'' ''0'') = Some (1 / 2)"
    by (simp_all add: find_child_def example_xfail_testcase_def get_def example_float_def)
  have c: "str_contains ''xfail'' (lower (get ?sk ''type'' ''''))
           \<and> \<not> str_contains ''skip'' (lower (get ?sk ''type'' ''''))"
    by (simp add: get_def lower_def lower_chr_def)
  have m: "get ?sk ''message'' '''' = ''known bug''"
    by (simp add: get_def)
  from skipped_child_classification [of example_xfail_testcase ?sk example_float "1 / 2" new_ParsedResults,
        OF h1 h2 h3 h4] c m
  obtain r where "parse_testcase example_float example_xfail_testcase = Inr r"
    and "TestResult.status r = CONDITIONALPASS" and "comment r = ''XFAIL: known bug''"
    and "passed (count_result new_ParsedResults r) = 1"
    and "skipped (count_result new_ParsedResults r) = 0"
    by (auto simp: new_ParsedResults_def)
  then show ?thesis
    using h1 h2 h3 h4 by blast
qed


theorem failure_child_detail_witness:
  "(find_child example_failure_testcase ''failure'' =
      Some (Element ''failure'' [''message'' \<mapsto> ''timeout''] (Some ''stack'') []))
   \<and> example_float (get example_failure_testcase ''time'' ''0'') = Some (5 / 4)
   \<and> (\<exists>r. parse_testcase example_float example_failure_testcase = Inr r
          \<and> TestResult.status r = FAIL
          \<and> comment r = ''timeout'' @ [CHR 0x0A, CHR 0x0A] @ ''stack'')"
proof -
  let ?ch = "Element ''failure'' [''message'' \<mapsto> ''timeout''] (Some ''stack'') []"
  have h1: "find_child example_failure_testcase ''failure'' = Some ?ch
            \<or> (find_child example_failure_testcase ''failure'' = None
               \<and> find_child example_failure_testcase ''error'' = Some ?ch)"
    and h1': "find_child example_failure_testcase ''failure'' = Some ?ch"
    and h2: "example_float (get example_failure_testcase ''time'' ''0'') = Some (5 / 4)"
    by (simp_all add: find_child_def example_failure_testcase_def get_def example_float_def)
  from failure_child_detail [of example_failure_testcase ?ch example_float "5 / 4", OF h1 h2]
  obtain r where "parse_testcase example_float example_failure_testcase = Inr r"
    and "TestResult.status r = FAIL"
    and "comment r = ''timeout'' @ [CHR 0x0A, CHR 0x0A] @ ''stack''"
    by (auto simp: get_def)
  then show ?thesis
    using h1' h2 by blast
qed

text \<open>
  The claim as stated fails on the separator: the detail of a failure with message
  \<open>timeout\<close> and body \<open>stack\<close> is not the message followed by the body. It also fails
  where the time attribute is not a number: no record is produced.
\<close>

theorem failure_detail_separator_counterexample:
  "parse_testcase example_float example_failure_testcase =
     Inr \<lparr>name = ''test_login'', full_name = ''test_login[chrome]'', status = FAIL,
          comment = ''timeout'' @ [CHR 0x0A, CHR 0x0A] @ ''stack'', duration = 5 / 4\<rparr>
   \<and> ''timeout'' @ [CHR 0x0A, CHR 0x0A] @ ''stack'' \<noteq> ''timeout'' @ take 2000 ''stack''
   \<and> parse_testcase example_float example_bad_time_failure = Inl ValueError"
  by (simp add: parse_testcase_def example_failure_testcase_def example_bad_time_failure_def
      get_def py_float_def example_float_def bind_result_def clean_name_of_eq truncate_at_def
      find_child_def extract_message_def)

lemma lower_XFAIL: "lower ''XFAIL'' = ''xfail''"
  by code_simp

text \<open>
  The claim as stated fails where the case of the type matters: the type \<open>XFAIL\<close> does
  not contain \<open>xfail\<close>, yet the record is a conditional pass, not TODO. It also fails
  where the time attribute is not a number: no record is produced.
\<close>

theorem skipped_type_case_counterexample:
  "\<not> str_contains ''xfail'' ''XFAIL''
   \<and> parse_testcase example_float example_upper_xfail_testcase =
     Inr \<lparr>name = ''test_known'', full_name = ''test_known[b]'', status = CONDITIONALPASS,
          comment = ''XFAIL: known bug'', duration = 1 / 2\<rparr>
   \<and> CONDITIONALPASS \<noteq> TODO
   \<and> parse_testcase example_float example_bad_time_testcase = Inl ValueError"
  using status_distinct
  by (simp add: parse_testcase_def example_upper_xfail_testcase_def
      example_bad_time_testcase_def get_def py_float_def example_float_def bind_result_def
      clean_name_of_eq truncate_at_def find_child_def lower_XFAIL Let_def)


subsection \<open>The comment of a group\<close>


lemma foldl_append_variation_line:
  "foldl (append_variation_line fmt) ls vs =
   ls @ map (\<lambda>v. status_icon (TestResult.status v) @ '' '' @ full_name v @ '' - ''
                @ TestResult.status v @ '' ('' @ fmt (duration v) @ ''s)'') vs"
  by (induction vs arbitrary: ls) (simp_all add: append_variation_line_def)

lemma foldl_append_failure_detail:
  "foldl append_failure_detail ls vs =
   ls @ concat (map (\<lambda>v. [[CHR 0x0A] @ full_name v @ '':'', take 1000 (comment v)]) vs)"
  by (induction vs arbitrary: ls) (simp_all add: append_failure_detail_def)

lemma build_comment_spec:
  "build_comment fmt agg = str_join [CHR 0x0A] (comment_lines_spec fmt (variations agg))"
proof -
  have f: "filter (\<lambda>v. TestResult.status v = FAIL \<and> comment v \<noteq> []) (variations agg) =
           filter failing_with_detail (variations agg)"
    by (simp add: failing_with_detail_def [abs_def])
  show ?thesis
    unfolding build_comment_def comment_lines_spec_def Let_def f
      foldl_append_variation_line foldl_append_failure_detail
    by simp
qed

lemma length_str_join_ge:
  "sum_list (map length ls) \<le> length (str_join sep ls)"
  by (induction sep ls rule: str_join.induct) simp_all

lemma sum_full_names_le_lines:
  "sum_list (map (\<lambda>v. length (full_name v)) vs)
   \<le> sum_list (map length (comment_lines_spec fmt vs))"
proof -
  have "sum_list (map (\<lambda>v. length (full_name v)) vs)
        \<le> sum_list (map length (map (\<lambda>v. status_icon (TestResult.status v) @ '' '' @ full_name v @ '' - ''
                @ TestResult.status v @ '' ('' @ fmt (duration v) @ ''s)'') vs))"
    by (induction vs) simp_all
  then show ?thesis
    by (simp add: comment_lines_spec_def)
qed


lemma failing_with_detail_nonempty:
  "(filter failing_with_detail vs \<noteq> []) =
   (\<exists>v. v \<in> set vs \<and> TestResult.status v = FAIL \<and> comment v \<noteq> [])"
  by (auto simp: filter_empty_conv failing_with_detail_def)

text \<open>
  Claim C7. The comment is the lines of the specification joined by newlines: a line
  with the variation count exactly when there is more than one variation, then one line
  per variation in order (icon, full name, status, formatted duration), then the failure
  details exactly when some variation has status FAIL and a non-empty detail, for at most
  the first five of them, each detail cut to 1000 characters. The comment holds every
  full name whole, so its length has no bound; \<open>to_dict\<close> passes it on unchanged, and
  only \<open>import_execution_results\<close> cuts it to 32000 characters.
\<close>

theorem build_comment_structure:
  "build_comment fmt2f agg = str_join [CHR 0x0A] (comment_lines_spec fmt2f (variations agg))
   \<and> (filter failing_with_detail (variations agg) \<noteq> []) =
       (\<exists>v. v \<in> set (variations agg) \<and> TestResult.status v = FAIL \<and> comment v \<noteq> [])
   \<and> sum_list (map (\<lambda>v. length (full_name v)) (variations agg))
       \<le> length (build_comment fmt2f agg)
   \<and> d_comment (to_dict fmt2f agg) = build_comment fmt2f agg
   \<and> map x_comment (snd (snd (import_execution_results k [to_dict fmt2f agg]))) =
       [take 32000 (build_comment fmt2f agg)]"
proof -
  have "sum_list (map (\<lambda>v. length (full_name v)) (variations agg))
        \<le> length (build_comment fmt2f agg)"
    unfolding build_comment_spec
    by (rule order_trans [OF sum_full_names_le_lines length_str_join_ge])
  then show ?thesis
    by (simp add: build_comment_spec failing_with_detail_nonempty to_dict_def
        import_execution_results_def)
qed

lemma example_group_eq:
  "example_group =
     \<lparr>test_key = ''KEY-1'', status = FAIL, variations = [example_pass, example_fail],
      total_duration = 7 / 4\<rparr>"
  using status_distinct
  by (simp add: example_group_def new_AggregatedResult_def add_variation_def
      example_pass_def example_fail_def Let_def)

theorem build_comment_structure_witness:
  "build_comment example_fmt2f example_group =
     str_join [CHR 0x0A]
       [''Parametrized test with 2 variations:'' @ [CHR 0x0A],
        ''[PASS] test_x[1] - PASS (0.50s)'',
        ''[FAIL] test_x[2] - FAIL (1.25s)'',
        [CHR 0x0A] @ ''--- Failure Details ---'',
        [CHR 0x0A] @ ''test_x[2]:'',
        ''boom'']"
proof -
  have n: "str_of_nat (Suc (Suc 0)) = ''2''"
    by code_simp
  have "comment_lines_spec example_fmt2f [example_pass, example_fail] =
       [''Parametrized test with 2 variations:'' @ [CHR 0x0A],
        ''[PASS] test_x[1] - PASS (0.50s)'',
        ''[FAIL] test_x[2] - FAIL (1.25s)'',
        [CHR 0x0A] @ ''--- Failure Details ---'',
        [CHR 0x0A] @ ''test_x[2]:'',
        ''boom'']"
    using status_distinct
    by (simp add: comment_lines_spec_def n example_pass_def example_fail_def example_fmt2f_def
        status_icon_def failing_with_detail_def PASS_def FAIL_def)
  then show ?thesis
    using build_comment_structure [of example_fmt2f example_group] by (simp add: example_group_eq)
qed


subsection \<open>Aggregation\<close>


lemma dict_modify_keys: "map fst (dict_modify d k f) = map fst d"
  by (induction d) (auto simp: dict_modify_def)

lemma dict_modify_absent: "k \<notin> set (map fst d) \<Longrightarrow> dict_modify d k f = d"
  by (induction d) (auto simp: dict_modify_def)

lemma variations_add_variation: "variations (add_variation a t) = variations a @ [t]"
  by (simp add: add_variation_def Let_def)

lemma test_key_add_variation: "test_key (add_variation a t) = test_key a"
  by (simp add: add_variation_def Let_def)

lemma aggregate_step_None:
  "m (name t) = None \<Longrightarrow> aggregate_step m (aggs, unm) t = (aggs, insert (name t) unm)"
  by (simp add: aggregate_step_def)

lemma aggregate_step_new:
  "m (name t) = Some key \<Longrightarrow> name t \<notin> set (map fst aggs) \<Longrightarrow>
   aggregate_step m (aggs, unm) t =
     (aggs @ [(name t, add_variation (new_AggregatedResult key) t)], unm)"
  by (simp add: aggregate_step_def dict_contains_def dict_set_def dict_modify_def
      dict_modify_absent [unfolded dict_modify_def])

lemma aggregate_step_old:
  "m (name t) = Some key \<Longrightarrow> name t \<in> set (map fst aggs) \<Longrightarrow>
   aggregate_step m (aggs, unm) t =
     (dict_modify aggs (name t) (\<lambda>agg. add_variation agg t), unm)"
  by (simp add: aggregate_step_def dict_contains_def)


lemma first_occurrences_snoc:
  "first_occurrences (xs @ [x]) =
   (if x \<in> set xs then first_occurrences xs else first_occurrences xs @ [x])"
  by (simp add: first_occurrences_def)

lemma set_first_occurrences: "set (first_occurrences xs) = set xs"
  by (simp add: first_occurrences_def)

lemma distinct_first_occurrences: "distinct (first_occurrences xs)"
  by (simp add: first_occurrences_def)

lemma set_matched_names:
  "set (matched_names m ts) = name ` {t \<in> set ts. m (name t) \<noteq> None}"
  by (auto simp: matched_names_def set_first_occurrences)

lemma matched_names_snoc_None:
  "m (name t) = None \<Longrightarrow> matched_names m (ts @ [t]) = matched_names m ts"
  by (simp add: matched_names_def)

lemma matched_names_snoc_Some:
  "m (name t) = Some key \<Longrightarrow>
   matched_names m (ts @ [t]) =
     (if name t \<in> set (matched_names m ts) then matched_names m ts
      else matched_names m ts @ [name t])"
  by (simp add: matched_names_def first_occurrences_snoc set_first_occurrences)

lemma in_matched_names_mapped: "k \<in> set (matched_names m ts) \<Longrightarrow> m k \<noteq> None"
  by (auto simp: set_matched_names)

lemma group_spec_snoc_other:
  "name t \<noteq> k \<Longrightarrow> group_spec m (ts @ [t]) k = group_spec m ts k"
  by (simp add: group_spec_def)

lemma group_spec_snoc_same:
  "group_spec m (ts @ [t]) (name t) =
   (name t, add_variation (snd (group_spec m ts (name t))) t)"
  by (simp add: group_spec_def)

lemma modify_group_spec_entry:
  "(case group_spec m ts k of
      (k', v') \<Rightarrow> if k' = name t then (k', add_variation v' t) else (k', v')) =
   group_spec m (ts @ [t]) k"
  by (simp add: group_spec_def)

lemma dict_modify_group_spec:
  "dict_modify (map (group_spec m ts) ks) (name t) (\<lambda>agg. add_variation agg t) =
   map (group_spec m (ts @ [t])) ks"
  by (simp add: dict_modify_def modify_group_spec_entry)

lemma map_fst_group_spec: "map fst (map (group_spec m ts) ks) = ks"
  by (induction ks) (simp_all add: group_spec_def)


lemma no_seen_with_new_name:
  "m (name t) = Some key \<Longrightarrow> name t \<notin> set (matched_names m ts) \<Longrightarrow>
   filter (\<lambda>t'. name t' = name t) ts = []"
  by (fastforce simp: set_matched_names filter_empty_conv image_iff)

lemma group_spec_new:
  "m (name t) = Some key \<Longrightarrow> name t \<notin> set (matched_names m ts) \<Longrightarrow>
   group_spec m (ts @ [t]) (name t) = (name t, add_variation (new_AggregatedResult key) t)"
  by (simp add: group_spec_def no_seen_with_new_name)

lemma map_group_spec_snoc_others:
  "name t \<notin> set ks \<Longrightarrow> map (group_spec m (ts @ [t])) ks = map (group_spec m ts) ks"
  by (induction ks) (auto simp: group_spec_snoc_other)

lemma aggregate_step_closed:
  "aggregate_step m
     (map (group_spec m ts) (matched_names m ts), name ` {t \<in> set ts. m (name t) = None}) t =
   (map (group_spec m (ts @ [t])) (matched_names m (ts @ [t])),
    name ` {t' \<in> set (ts @ [t]). m (name t') = None})"
proof (cases "m (name t)")
  case None
  have "name t \<notin> set (matched_names m ts)"
    using None in_matched_names_mapped by blast
  then have "map (group_spec m (ts @ [t])) (matched_names m ts) =
             map (group_spec m ts) (matched_names m ts)"
    by (rule map_group_spec_snoc_others)
  moreover have "name ` {t' \<in> set (ts @ [t]). m (name t') = None} =
                 insert (name t) (name ` {t \<in> set ts. m (name t) = None})"
    using None by auto
  ultimately show ?thesis
    using None by (simp add: aggregate_step_None matched_names_snoc_None)
next
  case (Some key)
  have u: "name ` {t' \<in> set (ts @ [t]). m (name t') = None} =
           name ` {t \<in> set ts. m (name t) = None}"
    using Some by auto
  show ?thesis
  proof (cases "name t \<in> set (matched_names m ts)")
    case True
    have "aggregate_step m
            (map (group_spec m ts) (matched_names m ts),
             name ` {t \<in> set ts. m (name t) = None}) t =
          (dict_modify (map (group_spec m ts) (matched_names m ts)) (name t)
             (\<lambda>agg. add_variation agg t),
           name ` {t \<in> set ts. m (name t) = None})"
      using Some True by (intro aggregate_step_old) (simp_all only: map_fst_group_spec)
    then show ?thesis
      using Some True u
      by (simp only: dict_modify_group_spec matched_names_snoc_Some if_True)
  next
    case False
    have "aggregate_step m
            (map (group_spec m ts) (matched_names m ts),
             name ` {t \<in> set ts. m (name t) = None}) t =
          (map (group_spec m ts) (matched_names m ts)
             @ [(name t, add_variation (new_AggregatedResult key) t)],
           name ` {t \<in> set ts. m (name t) = None})"
      using Some False by (intro aggregate_step_new) (simp_all only: map_fst_group_spec not_False_eq_True)
    moreover have "map (group_spec m (ts @ [t])) (matched_names m (ts @ [t])) =
          map (group_spec m ts) (matched_names m ts)
             @ [(name t, add_variation (new_AggregatedResult key) t)]"
      using Some False
      by (simp add: matched_names_snoc_Some group_spec_new map_group_spec_snoc_others)
    ultimately show ?thesis
      using u by (simp only:)
  qed
qed

lemma aggregate_loop_closed:
  "aggregate_loop m ts =
   (map (group_spec m ts) (matched_names m ts), name ` {t \<in> set ts. m (name t) = None})"
proof (induction ts rule: rev_induct)
  case Nil
  then show ?case
    by (simp add: aggregate_loop_def matched_names_def first_occurrences_def)
next
  case (snoc t ts)
  then show ?case
    by (simp add: aggregate_loop_def aggregate_step_closed del: set_append)
qed


lemma variations_foldl_add_variation:
  "variations (foldl add_variation a vs) = variations a @ vs"
  by (induction vs arbitrary: a) (simp_all add: variations_add_variation)

lemma variations_group_spec:
  "variations (snd (group_spec m ts k)) = filter (\<lambda>t. name t = k) ts"
  by (simp add: group_spec_def variations_foldl_add_variation new_AggregatedResult_def)

lemma length_filter_disjoint:
  "k \<notin> set ks \<Longrightarrow>
   length (filter (\<lambda>t. f t = k) ts) + length (filter (\<lambda>t. f t \<in> set ks) ts) =
   length (filter (\<lambda>t. f t = k \<or> f t \<in> set ks) ts)"
  by (induction ts) auto

lemma sum_group_sizes:
  "distinct ks \<Longrightarrow>
   sum_list (map (\<lambda>k. length (filter (\<lambda>t. f t = k) ts)) ks) =
   length (filter (\<lambda>t. f t \<in> set ks) ts)"
proof (induction ks)
  case Nil
  then show ?case by simp
next
  case (Cons k ks)
  then show ?case
    using length_filter_disjoint [of k ks f ts] by simp
qed

lemma matched_filter:
  "filter (\<lambda>t. name t \<in> set (matched_names m ts)) ts = filter (\<lambda>t. m (name t) \<noteq> None) ts"
  by (rule filter_cong [OF refl]) (auto simp: set_matched_names)

lemma group_sizes:
  "map (\<lambda>(k, a). length (variations a)) (map (group_spec m ts) ks) =
   map (\<lambda>k. length (filter (\<lambda>t. name t = k) ts)) ks"
  by (induction ks)
     (simp_all add: group_spec_def variations_foldl_add_variation new_AggregatedResult_def)

lemma sum_matched_groups:
  "sum_list (map (\<lambda>(k, a). length (variations a)) (map (group_spec m ts) (matched_names m ts))) =
   length (filter (\<lambda>t. m (name t) \<noteq> None) ts)"
proof -
  have "sum_list (map (\<lambda>(k, a). length (variations a))
          (map (group_spec m ts) (matched_names m ts))) =
        sum_list (map (\<lambda>k. length (filter (\<lambda>t. name t = k) ts)) (matched_names m ts))"
    by (simp only: group_sizes)
  also have "\<dots> = length (filter (\<lambda>t. name t \<in> set (matched_names m ts)) ts)"
    by (rule sum_group_sizes) (simp add: matched_names_def distinct_first_occurrences)
  also have "\<dots> = length (filter (\<lambda>t. m (name t) \<noteq> None) ts)"
    by (simp only: matched_filter)
  finally show ?thesis .
qed

lemma groups_are_filters:
  "map (\<lambda>(k, a). variations a) (map (group_spec m ts) ks) =
   map (\<lambda>(k, a). filter (\<lambda>t. name t = k) ts) (map (group_spec m ts) ks)"
  by (simp add: group_spec_def variations_foldl_add_variation new_AggregatedResult_def)

lemma matched_unmatched_disjoint:
  "name ` {t \<in> set ts. m (name t) \<noteq> None} \<inter> name ` {t \<in> set ts. m (name t) = None} = {}"
  by auto

lemma aggregate_empty_mapping:
  "aggregate fmt Map.empty r = ([], name ` set (tests r))"
  by (simp add: aggregate_def aggregate_loop_closed matched_names_def first_occurrences_def)

text \<open>
  The partition for every \<open>ParsedResults\<close> whose \<open>total\<close> is the number of its records.
\<close>

lemma aggregate_partitions_counted:
  assumes "total r = int (length (tests r))"
  shows "\<exists>aggs unm. aggregate_loop m (tests r) = (aggs, unm)
     \<and> aggregate fmt m r = (map (\<lambda>(k, a). to_dict fmt a) aggs, unm)
     \<and> distinct (map fst aggs)
     \<and> set (map fst aggs) = name ` {t \<in> set (tests r). m (name t) \<noteq> None}
     \<and> unm = name ` {t \<in> set (tests r). m (name t) = None}
     \<and> set (map fst aggs) \<inter> unm = {}
     \<and> map (\<lambda>(k, a). variations a) aggs =
         map (\<lambda>(k, a). filter (\<lambda>t. name t = k) (tests r)) aggs
     \<and> int (matched_variation_count aggs)
         + int (unmatched_record_count m (tests r)) = total r
     \<and> aggregate fmt Map.empty r = ([], name ` set (tests r))"
proof -
  let ?aggs = "map (group_spec m (tests r)) (matched_names m (tests r))"
  let ?unm = "name ` {t \<in> set (tests r). m (name t) = None}"
  have l: "aggregate_loop m (tests r) = (?aggs, ?unm)"
    by (rule aggregate_loop_closed)
  have a: "aggregate fmt m r = (map (\<lambda>(k, a). to_dict fmt a) ?aggs, ?unm)"
    by (simp add: aggregate_def l)
  have keys: "map fst ?aggs = matched_names m (tests r)"
    by (rule map_fst_group_spec)
  have d: "distinct (map fst ?aggs)"
    unfolding keys by (simp add: matched_names_def distinct_first_occurrences)
  have s: "set (map fst ?aggs) = name ` {t \<in> set (tests r). m (name t) \<noteq> None}"
    unfolding keys by (rule set_matched_names)
  have i: "set (map fst ?aggs) \<inter> ?unm = {}"
    unfolding s by (rule matched_unmatched_disjoint)
  have g: "map (\<lambda>(k, a). variations a) ?aggs =
           map (\<lambda>(k, a). filter (\<lambda>t. name t = k) (tests r)) ?aggs"
    by (rule groups_are_filters)
  have "length (filter (\<lambda>t. m (name t) \<noteq> None) (tests r))
        + length (filter (\<lambda>t. m (name t) = None) (tests r)) = length (tests r)"
    using sum_length_filter_compl [of "\<lambda>t. m (name t) \<noteq> None" "tests r"] by simp
  then have c: "int (matched_variation_count ?aggs)
         + int (unmatched_record_count m (tests r)) = total r"
    using assms
    by (simp only: sum_matched_groups matched_variation_count_def unmatched_record_count_def)
  show ?thesis
    using l a d s i g c aggregate_empty_mapping [of fmt r] by blast
qed


text \<open>
  Claim C3. For every mapping and every \<open>ParsedResults\<close> that \<open>JUnitParser.parse\<close>
  returns, \<open>aggregate\<close> partitions the records: the matched groups have distinct names,
  exactly the names of the records that are in the mapping; the unmatched set holds
  exactly the names of the records that are not; no name is in both; the variations of
  each group are the records of that name, in order, so each record is in exactly one
  group or counted as unmatched; and the variations of all groups plus the unmatched
  records are \<open>total\<close> many. With an empty mapping the matched list is empty and every
  name is unmatched. The function is total: it raises nothing.
\<close>

theorem aggregate_partitions_records:
  assumes "parse fs xml_parse float_of junit_file = Inr r"
  shows "\<exists>aggs unm. aggregate_loop m (tests r) = (aggs, unm)
     \<and> aggregate fmt m r = (map (\<lambda>(k, a). to_dict fmt a) aggs, unm)
     \<and> distinct (map fst aggs)
     \<and> set (map fst aggs) = name ` {t \<in> set (tests r). m (name t) \<noteq> None}
     \<and> unm = name ` {t \<in> set (tests r). m (name t) = None}
     \<and> set (map fst aggs) \<inter> unm = {}
     \<and> map (\<lambda>(k, a). variations a) aggs =
         map (\<lambda>(k, a). filter (\<lambda>t. name t = k) (tests r)) aggs
     \<and> int (matched_variation_count aggs)
         + int (unmatched_record_count m (tests r)) = total r
     \<and> aggregate fmt Map.empty r = ([], name ` set (tests r))"
  using parse_total_length [OF assms] by (rule aggregate_partitions_counted)

lemma example_names:
  "name example_pass = ''test_x''" "name example_fail = ''test_x''"
  "name example_unmatched = ''test_y''"
  by (simp_all add: example_pass_def example_fail_def example_unmatched_def)

lemma image_Collect_filter: "f ` {t \<in> set ts. P t} = set (map f (filter P ts))"
  by auto

lemma example_matched_set:
  "name ` {t \<in> set (tests example_results). example_mapping (name t) \<noteq> None} = {''test_x''}"
  unfolding image_Collect_filter
  by (simp add: example_results_def example_mapping_def example_names)

lemma example_unmatched_set:
  "name ` {t \<in> set (tests example_results). example_mapping (name t) = None} = {''test_y''}"
  unfolding image_Collect_filter
  by (simp add: example_results_def example_mapping_def example_names)

lemma example_unmatched_count:
  "unmatched_record_count example_mapping (tests example_results) = 1"
  by (simp add: unmatched_record_count_def example_results_def example_mapping_def
      example_names)

lemma parse_example_named:
  "parse example_named_fs example_named_xml_parse example_float ''named.xml'' =
     Inr example_results"
  by (simp add: parse_def example_named_fs_def example_named_xml_parse_def
      example_named_suite_def findall_descendants_def new_ParsedResults_def bind_result_def
      parse_testcase_def get_def py_float_def example_float_def clean_name_of_eq
      truncate_at_def find_child_def count_result_def extract_message_def Let_def
      example_results_def example_pass_def example_fail_def example_unmatched_def
      PASS_def FAIL_def TODO_def CONDITIONALPASS_def)

theorem aggregate_partitions_records_witness:
  "parse example_named_fs example_named_xml_parse example_float ''named.xml'' =
     Inr example_results
   \<and> (\<exists>aggs unm. aggregate_loop example_mapping (tests example_results) = (aggs, unm)
         \<and> distinct (map fst aggs)
         \<and> set (map fst aggs) = {''test_x''}
         \<and> unm = {''test_y''}
         \<and> set (map fst aggs) \<inter> unm = {}
         \<and> int (matched_variation_count aggs) + 1 = total example_results
         \<and> total example_results = 3)"
proof -
  have t: "total example_results = 3"
    by (simp add: example_results_def)
  from aggregate_partitions_records [OF parse_example_named, of example_mapping example_fmt2f]
  obtain aggs unm where "aggregate_loop example_mapping (tests example_results) = (aggs, unm)"
    and "distinct (map fst aggs)"
    and "set (map fst aggs) = {''test_x''}"
    and "unm = {''test_y''}"
    and "set (map fst aggs) \<inter> unm = {}"
    and "int (matched_variation_count aggs) + 1 = total example_results"
    unfolding example_matched_set example_unmatched_set example_unmatched_count
    by (elim exE conjE) simp
  then show ?thesis
    using parse_example_named t by blast
qed

subsection \<open>The mapping cache\<close>

lemma load_missing_or_invalid:
  "load Missing = Inr (JObject [])"
  "load (Present (Raises JSONDecodeError)) = Inr (JObject [])"
  "is_OSError e \<Longrightarrow> load (Present (Raises e)) = Inr (JObject [])"
  "load (Present (Loaded j)) = Inr j"
  by (simp_all add: load_def)

text \<open>
  Claim C8. A missing file and a file whose text is not JSON load as the empty mapping.
  A file whose bytes are not UTF-8 is not valid JSON either, and there \<open>load\<close> raises:
  the handler names \<open>JSONDecodeError\<close> and \<open>IOError\<close>, and \<open>UnicodeDecodeError\<close> is
  neither.
\<close>

theorem load_undecodable_file_raises:
  "load (Present (Raises UnicodeDecodeError)) = Inl UnicodeDecodeError
   \<and> load Missing = Inr (JObject [])
   \<and> load (Present (Raises JSONDecodeError)) = Inr (JObject [])"
  by (simp add: load_def is_OSError_def)


subsection \<open>The dry run\<close>

lemma steps_1_to_3_prints: "list_all is_print (steps_1_to_3 args)"
  by (simp add: steps_1_to_3_def print_header_def)

lemma main_dry_run:
  "truthy (environ ''JIRA_URL'') \<Longrightarrow> truthy (environ ''JIRA_TOKEN'') \<Longrightarrow> dry_run args \<Longrightarrow>
   main ts iso_now environ args =
     (steps_1_to_3 args @ print_header ''DRY RUN - No execution created'', Inr 0)"
  by (simp add: main_def)

text \<open>
  Claim C9. With \<open>--dry-run\<close> and credentials set, \<open>main\<close> exits with status 0 and does
  nothing but print; but it neither parses the JUnit file nor aggregates: the calls are
  commented out, the path is only printed, and the counts printed are fixed text. The
  run is the same whether or not a report is at the path: \<open>main\<close> reads no file.
\<close>

theorem main_dry_run_does_not_parse:
  "main ts iso_now example_environ example_dry_run_args =
     (steps_1_to_3 example_dry_run_args @ print_header ''DRY RUN - No execution created'',
      Inr 0)
   \<and> list_all is_print (fst (main ts iso_now example_environ example_dry_run_args))
   \<and> steps_1_to_3 example_dry_run_args =
       print_header ''STEP 1: Load test mapping''
       @ print_header ''STEP 2: Parse test results''
       @ [Print ''Parsing: missing.xml'',
          Print ([CHR 0x0A] @ ''   Total: 1| Passed: 1 | Failed: 1 | Skipped: 1'')]
       @ print_header ''STEP 3: Match results to Xray tests''
       @ [Print ''   Matched: 1 | Unmatched: 1'']"
  by (simp add: main_def example_environ_def example_dry_run_args_def truthy_def
      steps_1_to_3_def print_header_def)


theorem main_dry_run_does_not_parse_witness:
  "main ''2026-01-01 00:00:00'' ''2026-01-01T00:00:00'' example_environ example_dry_run_args =
     (steps_1_to_3 example_dry_run_args @ print_header ''DRY RUN - No execution created'',
      Inr 0)
   \<and> list_all is_print
        (fst (main ''2026-01-01 00:00:00'' ''2026-01-01T00:00:00'' example_environ
                example_dry_run_args))"
  using main_dry_run_does_not_parse
    [of "''2026-01-01 00:00:00''" "''2026-01-01T00:00:00''"]
  by blast

subsection \<open>The upload tool\<close>


lemma run_calls_complete: "run_calls client cs = (made, None) \<Longrightarrow> made = cs"
  by (induction cs arbitrary: made) (auto split: option.splits prod.splits)

lemma calls_after_create_versioning_flag:
  "calls_after_create (args\<lparr>versioning := b\<rparr>) v files = calls_after_create args v files"
  by (cases "lifecycle args") (simp_all add: calls_after_create_def)

lemma upload_main_versioning_ignored:
  "upload_main client dir_exists files (args\<lparr>versioning := b\<rparr>) =
   upload_main client dir_exists files args"
  by (simp add: upload_main_def calls_after_create_versioning_flag Let_def
      cong: sum.case_cong prod.case_cong)

lemma upload_main_completes:
  assumes "upload_main client dir_exists files args = (made, None)"
  shows "(lower (file_type args) = ''movie'' \<or> lower (file_type args) = ''stream'')
         \<and> (\<exists>cs. calls_after_create args (lower (file_type args) = ''movie'') files = Inr cs
                \<and> made = CreateBucket (bucket_name args) # cs)
         \<and> (case lifecycle args of None \<Rightarrow> True | Some d \<Rightarrow> 0 < d)"
proof -
  have ft: "lower (file_type args) = ''movie'' \<or> lower (file_type args) = ''stream''"
    using assms by (auto simp: upload_main_def split: if_splits)
  have lc: "case lifecycle args of None \<Rightarrow> True | Some d \<Rightarrow> 0 < d"
    using assms by (auto simp: upload_main_def split: if_splits option.splits)
  have v: "(if lower (file_type args) = ''movie'' then True
            else if lower (file_type args) = ''stream'' then False
            else versioning args) = (lower (file_type args) = ''movie'')"
    using ft by auto
  from assms obtain cs m where c: "calls_after_create args (lower (file_type args) = ''movie'') files = Inr cs"
    and r: "run_calls client cs = (m, None)" and mm: "made = CreateBucket (bucket_name args) # m"
    unfolding upload_main_def Let_def v
    by (auto split: if_splits sum.splits prod.splits)
  from run_calls_complete [OF r] c mm ft lc show ?thesis by simp
qed


lemma calls_after_create_movie:
  "calls_after_create args True files =
   Inr ([PutBucketVersioning (bucket_name args) ''Enabled'']
        @ (case lifecycle args of
             None \<Rightarrow> []
           | Some d \<Rightarrow> if d \<noteq> 0
                       then [set_lifecycle (bucket_name args) ''ScriptLifecycle'' d (Some d)]
                       else [])
        @ map (\<lambda>f. UploadFile (f_path f) (bucket_name args) (key_prefix args @ f_name f)) files
        @ (if lower (file_type args) = ''stream''
           then [UploadFile ''meta.json'' (bucket_name args) (key_prefix args @ ''_meta.json''),
                 UploadFile ''index.json'' (bucket_name args) (key_prefix args @ ''_index.json'')]
           else [])
        @ [Close])"
  by (cases "lifecycle args")
     (simp_all add: calls_after_create_def set_versioning_def bind_result_def)

lemma calls_after_create_stream:
  "calls_after_create args False files =
   Inr ((case lifecycle args of
             None \<Rightarrow> []
           | Some d \<Rightarrow> if d \<noteq> 0
                       then [set_lifecycle (bucket_name args) ''ScriptLifecycle'' d None]
                       else [])
        @ map (\<lambda>f. UploadFile (f_path f) (bucket_name args) (key_prefix args @ f_name f)) files
        @ (if lower (file_type args) = ''stream''
           then [UploadFile ''meta.json'' (bucket_name args) (key_prefix args @ ''_meta.json''),
                 UploadFile ''index.json'' (bucket_name args) (key_prefix args @ ''_index.json'')]
           else [])
        @ [Close])"
  by (cases "lifecycle args")
     (simp_all add: calls_after_create_def bind_result_def)

text \<open>
  Claim C10. For a run of the upload tool that returns normally, the flag
  \<open>--versioning\<close> changes nothing. For the file type movie the bucket's versioning is
  set to Enabled, and a lifecycle of \<open>d\<close> days sets both the expiration and the
  noncurrent-version expiration to \<open>d\<close>. For the file type stream no versioning call is
  made, and a lifecycle of \<open>d\<close> days sets the expiration only: no lifecycle call of the
  run carries a noncurrent-version expiration.
\<close>

theorem upload_versioning_by_file_type:
  assumes "upload_main client dir_exists files args = (made, None)"
  shows "upload_main client dir_exists files (args\<lparr>versioning := b\<rparr>) = (made, None)
    \<and> (lower (file_type args) = ''movie'' \<longrightarrow>
         PutBucketVersioning (bucket_name args) ''Enabled'' \<in> set made
         \<and> (\<forall>d. lifecycle args = Some d \<longrightarrow>
               PutBucketLifecycleConfiguration (bucket_name args)
                 \<lparr>rule_ID = ''ScriptLifecycle'', rule_Prefix = '''', rule_Status = ''Enabled'',
                  expiration_days = d, noncurrent_days = Some d\<rparr> \<in> set made))
    \<and> (lower (file_type args) = ''stream'' \<longrightarrow>
         (\<forall>n s. PutBucketVersioning n s \<notin> set made)
         \<and> (\<forall>n r. PutBucketLifecycleConfiguration n r \<in> set made \<longrightarrow> noncurrent_days r = None)
         \<and> (\<forall>d. lifecycle args = Some d \<longrightarrow>
               PutBucketLifecycleConfiguration (bucket_name args)
                 \<lparr>rule_ID = ''ScriptLifecycle'', rule_Prefix = '''', rule_Status = ''Enabled'',
                  expiration_days = d, noncurrent_days = None\<rparr> \<in> set made))"
proof -
  note c = upload_main_completes [OF assms]
  have 1: "upload_main client dir_exists files (args\<lparr>versioning := b\<rparr>) = (made, None)"
    using assms by (simp only: upload_main_versioning_ignored)
  have 2: "PutBucketVersioning (bucket_name args) ''Enabled'' \<in> set made
         \<and> (\<forall>d. lifecycle args = Some d \<longrightarrow>
               PutBucketLifecycleConfiguration (bucket_name args)
                 \<lparr>rule_ID = ''ScriptLifecycle'', rule_Prefix = '''', rule_Status = ''Enabled'',
                  expiration_days = d, noncurrent_days = Some d\<rparr> \<in> set made)"
    if m: "lower (file_type args) = ''movie''"
    using c m by (auto simp: calls_after_create_movie set_lifecycle_def)
  have 3: "(\<forall>n s. PutBucketVersioning n s \<notin> set made)
         \<and> (\<forall>n r. PutBucketLifecycleConfiguration n r \<in> set made \<longrightarrow> noncurrent_days r = None)
         \<and> (\<forall>d. lifecycle args = Some d \<longrightarrow>
               PutBucketLifecycleConfiguration (bucket_name args)
                 \<lparr>rule_ID = ''ScriptLifecycle'', rule_Prefix = '''', rule_Status = ''Enabled'',
                  expiration_days = d, noncurrent_days = None\<rparr> \<in> set made)"
    if s: "lower (file_type args) = ''stream''"
    using c s
    by (auto simp: calls_after_create_stream set_lifecycle_def split: option.splits if_splits)
  from 1 2 3 show ?thesis by blast
qed


theorem upload_versioning_by_file_type_witness:
  "upload_main all_succeed True example_files example_movie_args =
     ([CreateBucket ''qa-videos'',
       PutBucketVersioning ''qa-videos'' ''Enabled'',
       PutBucketLifecycleConfiguration ''qa-videos''
         \<lparr>rule_ID = ''ScriptLifecycle'', rule_Prefix = '''', rule_Status = ''Enabled'',
          expiration_days = 30, noncurrent_days = Some 30\<rparr>,
       UploadFile ''videos/a.mp4'' ''qa-videos'' ''m/a.mp4'',
       Close], None)
   \<and> upload_main all_succeed True example_files (example_movie_args\<lparr>versioning := True\<rparr>) =
       upload_main all_succeed True example_files example_movie_args
   \<and> upload_main all_succeed True example_files example_stream_args =
     ([CreateBucket ''qa-videos'',
       PutBucketLifecycleConfiguration ''qa-videos''
         \<lparr>rule_ID = ''ScriptLifecycle'', rule_Prefix = '''', rule_Status = ''Enabled'',
          expiration_days = 30, noncurrent_days = None\<rparr>,
       UploadFile ''videos/a.mp4'' ''qa-videos'' ''s/a.mp4'',
       UploadFile ''meta.json'' ''qa-videos'' ''s/_meta.json'',
       UploadFile ''index.json'' ''qa-videos'' ''s/_index.json'',
       Close], None)
   \<and> upload_main all_succeed True example_files (example_stream_args\<lparr>versioning := False\<rparr>) =
       upload_main all_succeed True example_files example_stream_args"
proof -
  have lm: "lower ''movie'' = ''movie''" and ls: "lower ''stream'' = ''stream''"
    by (simp_all add: lower_def lower_chr_def)
  have m: "upload_main all_succeed True example_files example_movie_args =
     ([CreateBucket ''qa-videos'',
       PutBucketVersioning ''qa-videos'' ''Enabled'',
       PutBucketLifecycleConfiguration ''qa-videos''
         \<lparr>rule_ID = ''ScriptLifecycle'', rule_Prefix = '''', rule_Status = ''Enabled'',
          expiration_days = 30, noncurrent_days = Some 30\<rparr>,
       UploadFile ''videos/a.mp4'' ''qa-videos'' ''m/a.mp4'',
       Close], None)"
    by (simp add: upload_main_def example_movie_args_def example_files_def all_succeed_def
        lm calls_after_create_movie set_lifecycle_def)
  have s: "upload_main all_succeed True example_files example_stream_args =
     ([CreateBucket ''qa-videos'',
       PutBucketLifecycleConfiguration ''qa-videos''
         \<lparr>rule_ID = ''ScriptLifecycle'', rule_Prefix = '''', rule_Status = ''Enabled'',
          expiration_days = 30, noncurrent_days = None\<rparr>,
       UploadFile ''videos/a.mp4'' ''qa-videos'' ''s/a.mp4'',
       UploadFile ''meta.json'' ''qa-videos'' ''s/_meta.json'',
       UploadFile ''index.json'' ''qa-videos'' ''s/_index.json'',
       Close], None)"
    by (simp add: upload_main_def example_stream_args_def example_files_def all_succeed_def
        ls calls_after_create_stream set_lifecycle_def)
  show ?thesis
    using m s upload_versioning_by_file_type [OF m, of True]
      upload_versioning_by_file_type [OF s, of False]
    by simp
qed


end
